theory Spec2Isabelle
  imports Complex_Main
begin

section \<open>Timebases and the timebase converter\<close>

text \<open>
  \<^verbatim>\<open>AVRational\<close> is libavutil's rational number: a numerator and a denominator, both C
  integers. Every timebase of \<^verbatim>\<open>src/main.cpp\<close> is one.
\<close>

record AVRational =
  num :: int
  den :: int

text \<open>
  Modelled from the spec: \<^verbatim>\<open>av_rescale_q_rnd\<close>, \<^verbatim>\<open>av_rescale_q\<close> and
  \<^verbatim>\<open>av_rescale_rnd\<close> are functions of libavutil; \<^verbatim>\<open>src/main.cpp\<close> only calls them. The
  spec (4.1) gives the contract: the result is
  \<open>value * fromBase.num * toBase.den / (fromBase.den * toBase.num)\<close>, rounded to the nearest
  integer, a tie going away from zero. \<open>round_near_inf a c\<close> is that rounding of the
  fraction \<open>a / c\<close> for a positive \<open>c\<close>, on mathematical integers (the spec asks for an
  intermediate precision that does not overflow). The flag \<^verbatim>\<open>AV_ROUND_PASS_MINMAX\<close> that
  \<^verbatim>\<open>write_frame\<close> adds for the two timestamps is a feature of the library on which the spec
  is silent (it says: the same rounding policy for all three fields), so the three fields
  are rescaled by the same function here.
\<close>

definition round_near_inf :: "int \<Rightarrow> int \<Rightarrow> int" where
  "round_near_inf a c =
     (if 0 \<le> a then (2 * a + c) div (2 * c) else - ((2 * (- a) + c) div (2 * c)))"

definition av_rescale_q :: "int \<Rightarrow> AVRational \<Rightarrow> AVRational \<Rightarrow> int" where
  "av_rescale_q a bq cq = round_near_inf (a * (num bq * den cq)) (num cq * den bq)"

text \<open>
  Modelled from the spec: \<^verbatim>\<open>av_rescale_rnd(a, b, c, AV_ROUND_UP)\<close> of libavutil, which the
  audio pipeline uses for the number of converted samples; the spec (4.3) says the count
  is rounded up. The value is the ceiling of \<open>a * b / c\<close>.
\<close>

definition av_rescale_rnd_up :: "int \<Rightarrow> int \<Rightarrow> int \<Rightarrow> int" where
  "av_rescale_rnd_up a b c = - ((- (a * b)) div c)"

text \<open>
  A timebase that the converter accepts as source has a non-negative numerator, one that it
  accepts as target a positive numerator; both have a positive denominator (the invariant
  of the spec's RationalTime).
\<close>

definition valid_from_base :: "AVRational \<Rightarrow> bool" where
  "valid_from_base q = (0 \<le> num q \<and> 0 < den q)"

definition valid_to_base :: "AVRational \<Rightarrow> bool" where
  "valid_to_base q = (0 < num q \<and> 0 < den q)"

text \<open>
  \<open>multiple_of k q r\<close>: the timebase \<open>q\<close> is \<open>k\<close> times the timebase \<open>r\<close>, as rational
  numbers (\<open>{1, 1000}\<close> is 48 times \<open>{1, 48000}\<close>).
\<close>

definition multiple_of :: "int \<Rightarrow> AVRational \<Rightarrow> AVRational \<Rightarrow> bool" where
  "multiple_of k q r = (num q * den r = k * (num r * den q))"

section \<open>The data of the program\<close>

text \<open>
  The codec identifiers, media types and sample formats that \<^verbatim>\<open>src/main.cpp\<close> names; every
  other value of the library's enumerations is an \<open>OTHER\<close> with its number.
\<close>

datatype codec_id =
    AV_CODEC_ID_NONE
  | AV_CODEC_ID_MPEG1VIDEO
  | AV_CODEC_ID_MPEG2VIDEO
  | AV_CODEC_ID_MPEG4
  | AV_CODEC_ID_MP3
  | AV_CODEC_ID_OTHER nat

datatype media_type = AVMEDIA_TYPE_VIDEO | AVMEDIA_TYPE_AUDIO | AVMEDIA_TYPE_OTHER nat

datatype sample_fmt = AV_SAMPLE_FMT_S16 | AV_SAMPLE_FMT_FLTP | AV_SAMPLE_FMT_OTHER nat

text \<open>
  \<^verbatim>\<open>AVCodec\<close>: the media type, and the first entry of \<^verbatim>\<open>sample_fmts\<close> when that
  pointer is not null. \<^verbatim>\<open>AVOutputFormat\<close>: the two default codecs and the bit
  \<^verbatim>\<open>AVFMT_NOFILE\<close> of \<^verbatim>\<open>flags\<close>.
\<close>

record AVCodec =
  codec_type :: media_type
  sample_fmts :: "sample_fmt option"

record AVOutputFormat =
  audio_codec :: codec_id
  video_codec :: codec_id
  nofile :: bool

text \<open>
  \<^verbatim>\<open>AVPacket\<close>: the fields that \<^verbatim>\<open>write_frame\<close> reads and writes (the payload is
  opaque).
\<close>

record AVPacket =
  pts :: int
  dts :: int
  duration :: int
  stream_index :: int

text \<open>
  \<^verbatim>\<open>AVStream\<close> together with its codec context \<^verbatim>\<open>st->codec\<close>; the fields of the context
  carry the prefix \<open>c_\<close>, after the variable \<^verbatim>\<open>c = st->codec\<close> of the source.
\<close>

record AVStream =
  index :: int
  st_id :: int
  time_base :: AVRational
  c_codec_id :: codec_id
  c_sample_fmt :: sample_fmt
  c_bit_rate :: int
  c_sample_rate :: int
  c_channels :: int
  c_frame_size :: int
  c_width :: int
  c_height :: int
  c_time_base :: AVRational
  c_gop_size :: int
  c_max_b_frames :: int
  c_mb_decision :: int

text \<open>
  What an encoder call gives back: a negative return value, no packet
  (\<^verbatim>\<open>got_packet == 0\<close>), or a packet.
\<close>

datatype enc_result = EncodeError | NoPacket | GotPacket AVPacket

text \<open>
  The calls into the libraries whose result is an \<^verbatim>\<open>int\<close>, or a pointer of which the
  program only tests whether it is null (the result is then 0 for null).
\<close>

datatype libcall =
    AvFrameAlloc
  | AvpictureAlloc
  | SwrAlloc
  | SwrInit
  | AvioOpen string
  | AvformatWriteHeader
  | SwrGetDelay int
  | SwrConvert int int
  | AvcodecFillAudioFrame nat int
  | SwsGetContext
  | SwsScale
  | AvInterleavedWriteFrame AVPacket
  | AvWriteTrailer
  | AvFree nat
  | AvFreePicture
  | AvcodecClose
  | AvFrameFree
  | AvioClose
  | AvformatFreeContext

text \<open>
  The history of a run: every call into a library, in order, with its arguments and its
  result.
\<close>

datatype event =
    Called libcall int
  | AllocOutputContext "string option" string "AVOutputFormat option"
  | FindEncoder codec_id "AVCodec option"
  | NewStream "AVStream option"
  | CodecOpen AVStream int
  | SamplesAlloc int int nat
  | EncodeAudio "(int \<times> int) option" enc_result
  | EncodeVideo "int option" enc_result

text \<open>
  The globals of \<^verbatim>\<open>src/main.cpp\<close>, the locals \<^verbatim>\<open>flush\<close>, \<^verbatim>\<open>fmt\<close>, \<^verbatim>\<open>audio_st\<close>
  and \<^verbatim>\<open>video_st\<close> of \<^verbatim>\<open>main\<close> (a null pointer is \<open>None\<close>), the static local
  \<^verbatim>\<open>sws_ctx\<close> of \<^verbatim>\<open>write_video_frame\<close>, and the history of the library calls.
  \<^verbatim>\<open>src_samples_data\<close> and \<^verbatim>\<open>dst_samples_data\<close> are pointers to pointer arrays, and
  \<open>plane0 s p\<close> is the element 0 of the array at \<open>p\<close>. Of the two frames the state has the
  fields that the program sets. The C \<^verbatim>\<open>int\<close> counters are mathematical integers (a signed
  overflow is undefined in C++), a \<^verbatim>\<open>double\<close> is the real number it stands for. The signal
  generator's \<^verbatim>\<open>t\<close>, \<^verbatim>\<open>tincr\<close>, \<^verbatim>\<open>tincr2\<close> and the contents of the sample and picture
  buffers only reach the libraries and are left out.
\<close>

record state =
  audio_is_eof :: bool
  video_is_eof :: bool
  audio_frame_nb_samples :: int
  audio_frame_pts :: int
  src_samples_data :: nat
  src_samples_linesize :: int
  src_nb_samples :: int
  max_dst_nb_samples :: int
  dst_samples_data :: nat
  dst_samples_linesize :: int
  dst_samples_size :: int
  plane0 :: "nat \<Rightarrow> nat"
  samples_count :: int
  swr_ctx :: bool
  audio_pts :: real
  video_pts :: real
  frame_pts :: int
  frame_count :: int
  sws_ctx :: bool
  flush :: bool
  fmt :: "AVOutputFormat option"
  audio_st :: "AVStream option"
  video_st :: "AVStream option"
  trace :: "event list"

text \<open>
  The libraries (libavformat, libavcodec, libswresample, libswscale, libavutil) are not part
  of the program. Each is a function of the history of the calls so far and of the
  arguments of the call, so that a theorem about every \<open>engines\<close> is about every behaviour
  of the libraries. \<open>fmul\<close> and \<open>fdiv\<close> are the multiplication and the division of
  \<^verbatim>\<open>double\<close>, whose rounding is left open in the same way.
\<close>

record engines =
  avformat_alloc_output_context2 :: "event list \<Rightarrow> string option \<Rightarrow> string \<Rightarrow> AVOutputFormat option"
  avcodec_find_encoder :: "event list \<Rightarrow> codec_id \<Rightarrow> AVCodec option"
  avformat_new_stream :: "event list \<Rightarrow> AVStream option"
  avcodec_open2 :: "event list \<Rightarrow> AVStream \<Rightarrow> int \<times> AVStream"
  av_samples_alloc :: "event list \<Rightarrow> int \<Rightarrow> int \<times> nat \<times> nat \<times> int"
  av_samples_get_buffer_size :: "int \<Rightarrow> int \<Rightarrow> sample_fmt \<Rightarrow> int"
  header_time_base :: "event list \<Rightarrow> AVStream \<Rightarrow> AVRational"
  avcodec_encode_audio2 :: "event list \<Rightarrow> (int \<times> int) option \<Rightarrow> enc_result"
  avcodec_encode_video2 :: "event list \<Rightarrow> int option \<Rightarrow> enc_result"
  status :: "event list \<Rightarrow> libcall \<Rightarrow> int"
  fmul :: "real \<Rightarrow> real \<Rightarrow> real"
  fdiv :: "real \<Rightarrow> real \<Rightarrow> real"

text \<open>
  How a function ends when it does not return to its caller: \<^verbatim>\<open>return n\<close> from
  \<^verbatim>\<open>main\<close>, \<^verbatim>\<open>exit(n)\<close>, or a failed \<^verbatim>\<open>assert\<close>. It comes with the state at that
  moment.
\<close>

datatype stop = Return int | Exit int | Abort

definition lib :: "engines \<Rightarrow> libcall \<Rightarrow> state \<Rightarrow> int \<times> state" where
  "lib env c s =
     (let r = status env (trace s) c in (r, s\<lparr>trace := trace s @ [Called c r]\<rparr>))"

section \<open>The writer\<close>

text \<open>\<^verbatim>\<open>write_frame\<close>, lines 54 to 62.\<close>

definition write_frame :: "engines \<Rightarrow> AVRational \<Rightarrow> AVStream \<Rightarrow> AVPacket \<Rightarrow> state \<Rightarrow> int \<times> state" where
  "write_frame env tb st pkt s =
     lib env (AvInterleavedWriteFrame
       (pkt\<lparr>pts := av_rescale_q (pts pkt) tb (time_base st),
            dts := av_rescale_q (dts pkt) tb (time_base st),
            duration := av_rescale_q (duration pkt) tb (time_base st),
            stream_index := index st\<rparr>)) s"

section \<open>Setting up the streams\<close>

text \<open>
  \<^verbatim>\<open>add_stream\<close>, lines 64 to 121. \<^verbatim>\<open>oc->nb_streams - 1\<close> is the index of the stream
  just made. \<^verbatim>\<open>STREAM_FRAME_RATE * 100\<close> is the \<^verbatim>\<open>double\<close> 2997.0, converted to the
  \<^verbatim>\<open>int\<close> 2997. The result is the codec found and the stream.
\<close>

definition add_stream :: "engines \<Rightarrow> codec_id \<Rightarrow> state \<Rightarrow> (stop \<times> state) + (AVCodec \<times> AVStream \<times> state)" where
  "add_stream env cid s =
     (let codec = avcodec_find_encoder env (trace s) cid;
          s1 = s\<lparr>trace := trace s @ [FindEncoder cid codec]\<rparr>
      in case codec of
           None \<Rightarrow> Inl (Exit 1, s1)
         | Some cd \<Rightarrow>
             (let r = avformat_new_stream env (trace s1);
                  s2 = s1\<lparr>trace := trace s1 @ [NewStream r]\<rparr>
              in case r of
                   None \<Rightarrow> Inl (Exit 1, s2)
                 | Some st0 \<Rightarrow>
                     (let st = st0\<lparr>st_id := index st0\<rparr>
                      in Inr (cd,
                           (case codec_type cd of
                              AVMEDIA_TYPE_AUDIO \<Rightarrow>
                                st\<lparr>c_sample_fmt :=
                                      (case sample_fmts cd of
                                         Some f \<Rightarrow> f
                                       | None \<Rightarrow> AV_SAMPLE_FMT_FLTP),
                                    c_bit_rate := 160000,
                                    c_sample_rate := 48000,
                                    c_channels := 2\<rparr>
                            | AVMEDIA_TYPE_VIDEO \<Rightarrow>
                                st\<lparr>c_codec_id := cid,
                                    c_bit_rate := 8000000,
                                    c_width := 1280,
                                    c_height := 720,
                                    c_time_base := \<lparr>num = 100, den = 2997\<rparr>,
                                    c_gop_size := 12,
                                    c_max_b_frames :=
                                      (if cid = AV_CODEC_ID_MPEG2VIDEO then 2
                                       else c_max_b_frames st),
                                    c_mb_decision :=
                                      (if cid = AV_CODEC_ID_MPEG1VIDEO then 2
                                       else c_mb_decision st)\<rparr>
                            | AVMEDIA_TYPE_OTHER k \<Rightarrow> st),
                           s2))))"

text \<open>
  \<^verbatim>\<open>open_video\<close>, lines 290 to 323. \<^verbatim>\<open>avcodec_open2\<close> may change the codec context; the
  result is the stream with the opened context.
\<close>

definition open_video :: "engines \<Rightarrow> AVStream \<Rightarrow> state \<Rightarrow> (stop \<times> state) + (AVStream \<times> state)" where
  "open_video env st s =
     (let (ret, c) = avcodec_open2 env (trace s) st;
          s1 = s\<lparr>trace := trace s @ [CodecOpen st ret]\<rparr>
      in if ret < 0 then Inl (Exit 1, s1)
         else
           (let (fr, s2) = lib env AvFrameAlloc s1
            in if fr = 0 then Inl (Exit 1, s2)
               else
                 (let (ret2, s3) = lib env AvpictureAlloc s2
                  in if ret2 < 0 then Inl (Exit 1, s3)
                     else
                       (let (ret3, s4) = lib env AvpictureAlloc s3
                        in if ret3 < 0 then Inl (Exit 1, s4) else Inr (c, s4)))))"

text \<open>
  \<^verbatim>\<open>av_samples_alloc_array_and_samples\<close> and \<^verbatim>\<open>av_samples_alloc\<close> both end in the
  allocator \<open>av_samples_alloc\<close> of the engines, which gives the return value, the pointer
  array (used by the first only), the sample buffer and the line size.
\<close>

text \<open>The second half of \<^verbatim>\<open>open_audio\<close>, lines 171 to 199: the resampler and its buffer.\<close>

definition open_resampler :: "engines \<Rightarrow> AVStream \<Rightarrow> state \<Rightarrow> (stop \<times> state) + state" where
  "open_resampler env c s =
     (let s0 = s\<lparr>max_dst_nb_samples := src_nb_samples s\<rparr>
      in case
           (if c_sample_fmt c \<noteq> AV_SAMPLE_FMT_S16 then
              (let (sw, s1) = lib env SwrAlloc s0
               in if sw = 0 then Inl (Exit 1, s1)
                  else
                    (let s2 = s1\<lparr>swr_ctx := True\<rparr>;
                         (ret, s3) = lib env SwrInit s2
                     in if ret < 0 then Inl (Exit 1, s3)
                        else
                          (let (ret2, arr, buf, ls) =
                                 av_samples_alloc env (trace s3) (max_dst_nb_samples s3);
                               s4 = s3\<lparr>dst_samples_data := arr,
                                       plane0 := (plane0 s3)(arr := buf),
                                       dst_samples_linesize := ls,
                                       trace := trace s3 @
                                         [SamplesAlloc (max_dst_nb_samples s3) ret2 buf]\<rparr>
                           in if ret2 < 0 then Inl (Exit 1, s4) else Inr s4)))
            else Inr (s0\<lparr>dst_samples_data := src_samples_data s0\<rparr>))
         of
           Inl e \<Rightarrow> Inl e
         | Inr s5 \<Rightarrow>
             Inr (s5\<lparr>dst_samples_size :=
                        av_samples_get_buffer_size env (c_channels c)
                          (max_dst_nb_samples s5) (c_sample_fmt c)\<rparr>))"

text \<open>\<^verbatim>\<open>open_audio\<close>, lines 139 to 200; the result is the stream with the opened context.\<close>

definition open_audio :: "engines \<Rightarrow> AVStream \<Rightarrow> state \<Rightarrow> (stop \<times> state) + (AVStream \<times> state)" where
  "open_audio env st s =
     (let (fr, s1) = lib env AvFrameAlloc s
      in if fr = 0 then Inl (Exit 1, s1)
         else
           (let (ret, c) = avcodec_open2 env (trace s1) st;
                s2 = s1\<lparr>trace := trace s1 @ [CodecOpen st ret]\<rparr>
            in if ret < 0 then Inl (Exit 1, s2)
               else
                 (let s3 = s2\<lparr>src_nb_samples := c_frame_size c\<rparr>;
                      (ret2, arr, buf, ls) = av_samples_alloc env (trace s3) (src_nb_samples s3);
                      s4 = s3\<lparr>src_samples_data := arr,
                              plane0 := (plane0 s3)(arr := buf),
                              src_samples_linesize := ls,
                              trace := trace s3 @ [SamplesAlloc (src_nb_samples s3) ret2 buf]\<rparr>
                  in if ret2 < 0 then Inl (Exit 1, s4)
                     else
                       (case open_resampler env c s4 of
                          Inl e \<Rightarrow> Inl e
                        | Inr s5 \<Rightarrow> Inr (c, s5)))))"

section \<open>The audio pipeline\<close>

text \<open>
  Lines 230 to 238 of \<^verbatim>\<open>write_audio_frame\<close>: the resample buffer is asked to hold
  \<open>dst_nb_samples\<close> samples.
\<close>

definition grow_dst_samples :: "engines \<Rightarrow> AVStream \<Rightarrow> int \<Rightarrow> state \<Rightarrow> (stop \<times> state) + state" where
  "grow_dst_samples env c dst_nb_samples s =
     (if dst_nb_samples > max_dst_nb_samples s then
        (let (fr, s1) = lib env (AvFree (plane0 s (dst_samples_data s))) s;
             (ret, arr, buf, ls) = av_samples_alloc env (trace s1) dst_nb_samples;
             s2 = s1\<lparr>plane0 := (plane0 s1)(dst_samples_data s1 := buf),
                     dst_samples_linesize := ls,
                     trace := trace s1 @ [SamplesAlloc dst_nb_samples ret buf]\<rparr>
         in if ret < 0 then Inl (Exit 1, s2)
            else
              Inr (s2\<lparr>max_dst_nb_samples := dst_nb_samples,
                      dst_samples_size :=
                        av_samples_get_buffer_size env (c_channels c) dst_nb_samples
                          (c_sample_fmt c)\<rparr>))
      else Inr s)"


text \<open>
  Lines 227 to 247: the number of samples for the encoder, after the conversion when there
  is a resampler. \<^verbatim>\<open>av_rescale_rnd\<close> gives an \<^verbatim>\<open>int64_t\<close> that the program stores in the
  \<^verbatim>\<open>int\<close> \<^verbatim>\<open>dst_nb_samples\<close>; the number of samples is taken to be in the range of
  \<^verbatim>\<open>int\<close>, so that the conversion keeps the value.
\<close>

definition convert_samples :: "engines \<Rightarrow> AVStream \<Rightarrow> state \<Rightarrow> (stop \<times> state) + (int \<times> state)" where
  "convert_samples env c s =
     (if swr_ctx s then
        (let (delay, s1) = lib env (SwrGetDelay (c_sample_rate c)) s;
             dst_nb_samples =
               av_rescale_rnd_up (delay + src_nb_samples s1) (c_sample_rate c) (c_sample_rate c)
         in case grow_dst_samples env c dst_nb_samples s1 of
              Inl e \<Rightarrow> Inl e
            | Inr s2 \<Rightarrow>
                (let (ret, s3) = lib env (SwrConvert dst_nb_samples (src_nb_samples s2)) s2
                 in if ret < 0 then Inl (Exit 1, s3) else Inr (dst_nb_samples, s3)))
      else Inr (src_nb_samples s, s))"

text \<open>Lines 225 to 252: the body of \<^verbatim>\<open>if (!flush)\<close>.\<close>

definition audio_input :: "engines \<Rightarrow> AVStream \<Rightarrow> state \<Rightarrow> (stop \<times> state) + state" where
  "audio_input env c s =
     (case convert_samples env c s of
        Inl e \<Rightarrow> Inl e
      | Inr (dst_nb_samples, s1) \<Rightarrow>
          (let s2 = s1\<lparr>audio_frame_nb_samples := dst_nb_samples,
                       audio_frame_pts :=
                         av_rescale_q (samples_count s1) \<lparr>num = 1, den = c_sample_rate c\<rparr>
                           (c_time_base c)\<rparr>;
               (r, s3) = lib env (AvcodecFillAudioFrame (plane0 s2 (dst_samples_data s2))
                                   (dst_samples_size s2)) s2
           in Inr (s3\<lparr>samples_count := samples_count s3 + dst_nb_samples\<rparr>)))"

text \<open>
  The right-hand side of line 270,
  \<^verbatim>\<open>(double)samples_count * st->time_base.den / st->time_base.num / c->sample_rate\<close>, for a
  sample counter \<open>n\<close>.
\<close>

definition audio_running_time :: "engines \<Rightarrow> AVStream \<Rightarrow> int \<Rightarrow> real" where
  "audio_running_time env st n =
     fdiv env
       (fdiv env
         (fmul env (real_of_int n) (real_of_int (den (time_base st))))
         (real_of_int (num (time_base st))))
       (real_of_int (c_sample_rate st))"

text \<open>\<^verbatim>\<open>write_audio_frame\<close>, lines 217 to 271.\<close>

definition write_audio_frame :: "engines \<Rightarrow> AVStream \<Rightarrow> bool \<Rightarrow> state \<Rightarrow> (stop \<times> state) + state" where
  "write_audio_frame env st fl s =
     (case (if \<not> fl then audio_input env st s else Inr s) of
        Inl e \<Rightarrow> Inl e
      | Inr s1 \<Rightarrow>
          (let frame = (if fl then None
                        else Some (audio_frame_nb_samples s1, audio_frame_pts s1));
               r = avcodec_encode_audio2 env (trace s1) frame;
               s2 = s1\<lparr>trace := trace s1 @ [EncodeAudio frame r]\<rparr>
           in case r of
                EncodeError \<Rightarrow> Inl (Exit 1, s2)
              | NoPacket \<Rightarrow> Inr (if fl then s2\<lparr>audio_is_eof := True\<rparr> else s2)
              | GotPacket pkt \<Rightarrow>
                  (let (ret, s3) = write_frame env (c_time_base st) st pkt s2
                   in if ret < 0 then Inl (Exit 1, s3)
                      else
                        Inr (s3\<lparr>audio_pts :=
                                audio_running_time env st (samples_count s3)\<rparr>))))"

text \<open>\<^verbatim>\<open>close_audio\<close>, lines 272 to 283.\<close>

definition close_audio :: "engines \<Rightarrow> state \<Rightarrow> state" where
  "close_audio env s =
     (let s1 = snd (lib env AvcodecClose s);
          s2 = (if dst_samples_data s1 \<noteq> src_samples_data s1 then
                  snd (lib env (AvFree (dst_samples_data s1))
                    (snd (lib env (AvFree (plane0 s1 (dst_samples_data s1))) s1)))
                else s1);
          s3 = snd (lib env (AvFree (plane0 s2 (src_samples_data s2))) s2);
          s4 = snd (lib env (AvFree (src_samples_data s3)) s3)
      in snd (lib env AvFrameFree s4))"

section \<open>The video pipeline\<close>

text \<open>Lines 355 to 367 of \<^verbatim>\<open>write_video_frame\<close>: the body of \<^verbatim>\<open>if (!flush)\<close>.\<close>

definition video_input :: "engines \<Rightarrow> AVStream \<Rightarrow> state \<Rightarrow> (stop \<times> state) + state" where
  "video_input env c s =
     (case (if \<not> sws_ctx s then
              (let (r, s1) = lib env SwsGetContext s
               in if r = 0 then Inl (Exit 1, s1) else Inr (s1\<lparr>sws_ctx := True\<rparr>))
            else Inr s) of
        Inl e \<Rightarrow> Inl e
      | Inr s2 \<Rightarrow> Inr (snd (lib env SwsScale s2)))"

text \<open>\<^verbatim>\<open>write_video_frame\<close>, lines 350 to 405.\<close>

definition write_video_frame :: "engines \<Rightarrow> AVStream \<Rightarrow> bool \<Rightarrow> state \<Rightarrow> (stop \<times> state) + state" where
  "write_video_frame env st fl s =
     (case (if \<not> fl then video_input env st s else Inr s) of
        Inl e \<Rightarrow> Inl e
      | Inr s1 \<Rightarrow>
          (let s2 = s1\<lparr>frame_pts := frame_count s1\<rparr>;
               frame = (if fl then None else Some (frame_pts s2));
               r = avcodec_encode_video2 env (trace s2) frame;
               s3 = s2\<lparr>trace := trace s2 @ [EncodeVideo frame r]\<rparr>
           in case r of
                EncodeError \<Rightarrow> Inl (Exit 1, s3)
              | GotPacket pkt \<Rightarrow>
                  (let (ret, s4) = write_frame env (c_time_base st) st pkt s3
                   in if ret < 0 then Inl (Exit 1, s4)
                      else
                        Inr (s4\<lparr>video_pts := real_of_int (frame_pts s4),
                                frame_count := frame_count s4 + 1\<rparr>))
              | NoPacket \<Rightarrow>
                  (let s4 = (if fl then s3\<lparr>video_is_eof := True\<rparr> else s3)
                   in Inr (s4\<lparr>video_pts := real_of_int (frame_pts s4),
                              frame_count := frame_count s4 + 1\<rparr>))))"

text \<open>\<^verbatim>\<open>close_video\<close>, lines 406 to 413.\<close>

definition close_video :: "engines \<Rightarrow> state \<Rightarrow> state" where
  "close_video env s =
     (let s1 = snd (lib env AvcodecClose s);
          s2 = snd (lib env AvFreePicture s1);
          s3 = snd (lib env AvFreePicture s2)
      in snd (lib env AvFrameFree s3))"

section \<open>The scheduler\<close>

text \<open>
  A running time of the loop is a \<^verbatim>\<open>double\<close> or \<^verbatim>\<open>INFINITY\<close>. The pts values are
  finite and the timebases of the streams have a non-zero denominator, so no time is a NaN
  and the comparisons of C are the order of the real numbers, with \<^verbatim>\<open>INFINITY\<close> on top.
\<close>

datatype dtime = Finite real | INFINITY

fun dle :: "dtime \<Rightarrow> dtime \<Rightarrow> bool" where
  "dle (Finite a) (Finite b) = (a \<le> b)"
| "dle (Finite a) INFINITY = True"
| "dle INFINITY (Finite b) = False"
| "dle INFINITY INFINITY = True"

fun dlt :: "dtime \<Rightarrow> dtime \<Rightarrow> bool" where
  "dlt (Finite a) (Finite b) = (a < b)"
| "dlt (Finite a) INFINITY = True"
| "dlt INFINITY (Finite b) = False"
| "dlt INFINITY INFINITY = False"

definition STREAM_DURATION :: real where
  "STREAM_DURATION = 5"

definition av_q2d :: "engines \<Rightarrow> AVRational \<Rightarrow> real" where
  "av_q2d env a = fdiv env (real_of_int (num a)) (real_of_int (den a))"

text \<open>Lines 476 and 477.\<close>

definition audio_time :: "engines \<Rightarrow> state \<Rightarrow> dtime" where
  "audio_time env s =
     (if audio_st s \<noteq> None \<and> \<not> audio_is_eof s
      then Finite (fmul env (audio_pts s) (av_q2d env (time_base (the (audio_st s)))))
      else INFINITY)"

definition video_time :: "engines \<Rightarrow> state \<Rightarrow> dtime" where
  "video_time env s =
     (if video_st s \<noteq> None \<and> \<not> video_is_eof s
      then Finite (fmul env (video_pts s) (av_q2d env (time_base (the (video_st s)))))
      else INFINITY)"

text \<open>The condition of the \<^verbatim>\<open>while\<close>, line 474.\<close>

definition loop_cond :: "state \<Rightarrow> bool" where
  "loop_cond s =
     ((video_st s \<noteq> None \<and> \<not> video_is_eof s) \<or> (audio_st s \<noteq> None \<and> \<not> audio_is_eof s))"

text \<open>The condition under which line 480 sets \<^verbatim>\<open>flush\<close>, apart from \<^verbatim>\<open>!flush\<close>.\<close>

definition duration_reached :: "engines \<Rightarrow> state \<Rightarrow> bool" where
  "duration_reached env s =
     ((audio_st s = None \<or> dle (Finite STREAM_DURATION) (audio_time env s))
      \<and> (video_st s = None \<or> dle (Finite STREAM_DURATION) (video_time env s)))"

text \<open>Lines 480 to 482.\<close>

definition update_flush :: "engines \<Rightarrow> state \<Rightarrow> state" where
  "update_flush env s =
     (if \<not> flush s \<and> duration_reached env s then s\<lparr>flush := True\<rparr> else s)"

text \<open>The body of the loop, lines 475 to 492.\<close>

definition loop_body :: "engines \<Rightarrow> state \<Rightarrow> (stop \<times> state) + state" where
  "loop_body env s =
     (let a_time = audio_time env s;
          v_time = video_time env s;
          s1 = update_flush env s
      in if audio_st s1 \<noteq> None \<and> \<not> audio_is_eof s1 \<and> dle a_time v_time
         then write_audio_frame env (the (audio_st s1)) (flush s1) s1
         else if video_st s1 \<noteq> None \<and> \<not> video_is_eof s1 \<and> dlt v_time a_time
         then write_video_frame env (the (video_st s1)) (flush s1) s1
         else Inr s1)"

text \<open>
  The loop, lines 474 to 493, with fuel: \<open>None\<close> when the loop is still running after
  \<open>n\<close> iterations.
\<close>

fun sched_loop :: "engines \<Rightarrow> nat \<Rightarrow> state \<Rightarrow> ((stop \<times> state) + state) option" where
  "sched_loop env 0 s = (if loop_cond s then None else Some (Inr s))"
| "sched_loop env (Suc n) s =
     (if loop_cond s then
        (case loop_body env s of
           Inl e \<Rightarrow> Some (Inl e)
         | Inr s' \<Rightarrow> sched_loop env n s')
      else Some (Inr s))"

text \<open>
  The state after exactly \<open>k\<close> iterations of the loop, when the run gets that far:
  \<open>None\<close> when the loop has ended or the process has exited before.
\<close>

fun iterations :: "engines \<Rightarrow> nat \<Rightarrow> state \<Rightarrow> state option" where
  "iterations env 0 s = Some s"
| "iterations env (Suc k) s =
     (if loop_cond s then
        (case loop_body env s of
           Inl e \<Rightarrow> None
         | Inr s' \<Rightarrow> iterations env k s')
      else None)"

section \<open>The main function\<close>

text \<open>The statics of the program are zero at the start.\<close>

definition init_state :: state where
  "init_state =
     \<lparr>audio_is_eof = False, video_is_eof = False,
      audio_frame_nb_samples = 0, audio_frame_pts = 0,
      src_samples_data = 0, src_samples_linesize = 0, src_nb_samples = 0,
      max_dst_nb_samples = 0, dst_samples_data = 0, dst_samples_linesize = 0,
      dst_samples_size = 0, plane0 = (\<lambda>p. 0), samples_count = 0, swr_ctx = False,
      audio_pts = 0, video_pts = 0, frame_pts = 0, frame_count = 0, sws_ctx = False,
      flush = False, fmt = None, audio_st = None, video_st = None, trace = []\<rparr>"

text \<open>Lines 432 to 437: the output context, by the file name, then as \<^verbatim>\<open>"avi"\<close>.\<close>

definition alloc_context :: "engines \<Rightarrow> string \<Rightarrow> state \<Rightarrow> (stop \<times> state) + state" where
  "alloc_context env filename s =
     (let oc = avformat_alloc_output_context2 env (trace s) None filename;
          s1 = s\<lparr>trace := trace s @ [AllocOutputContext None filename oc]\<rparr>
      in case oc of
           Some f \<Rightarrow> Inr (s1\<lparr>fmt := Some f\<rparr>)
         | None \<Rightarrow>
             (let oc2 = avformat_alloc_output_context2 env (trace s1) (Some ''avi'') filename;
                  s2 = s1\<lparr>trace := trace s1 @ [AllocOutputContext (Some ''avi'') filename oc2]\<rparr>
              in case oc2 of
                   Some f \<Rightarrow> Inr (s2\<lparr>fmt := Some f\<rparr>)
                 | None \<Rightarrow> Inl (Return 1, s2)))"

text \<open>Lines 444 to 447: the two streams, video first.\<close>

definition add_streams :: "engines \<Rightarrow> AVOutputFormat \<Rightarrow> state \<Rightarrow> (stop \<times> state) + state" where
  "add_streams env f s =
     (case (if video_codec f \<noteq> AV_CODEC_ID_NONE then
              (case add_stream env (video_codec f) s of
                 Inl e \<Rightarrow> Inl e
               | Inr (cd, st, s1) \<Rightarrow> Inr (s1\<lparr>video_st := Some st\<rparr>))
            else Inr (s\<lparr>video_st := None\<rparr>)) of
        Inl e \<Rightarrow> Inl e
      | Inr s2 \<Rightarrow>
          (if audio_codec f \<noteq> AV_CODEC_ID_NONE then
             (case add_stream env (audio_codec f) s2 of
                Inl e \<Rightarrow> Inl e
              | Inr (cd, st, s3) \<Rightarrow> Inr (s3\<lparr>audio_st := Some st\<rparr>))
           else Inr (s2\<lparr>audio_st := None\<rparr>)))"

text \<open>Lines 450 to 457: the codecs are opened.\<close>

definition open_streams :: "engines \<Rightarrow> state \<Rightarrow> (stop \<times> state) + state" where
  "open_streams env s =
     (case (case video_st s of
              Some st \<Rightarrow>
                (case open_video env st s of
                   Inl e \<Rightarrow> Inl e
                 | Inr (c, s1) \<Rightarrow>
                     Inr (s1\<lparr>video_st := Some (c\<lparr>time_base := \<lparr>num = 100, den = 2997\<rparr>\<rparr>)\<rparr>))
            | None \<Rightarrow> Inr s) of
        Inl e \<Rightarrow> Inl e
      | Inr s2 \<Rightarrow>
          (case audio_st s2 of
             Some st \<Rightarrow>
               (case open_audio env st s2 of
                  Inl e \<Rightarrow> Inl e
                | Inr (c, s3) \<Rightarrow> Inr (s3\<lparr>audio_st := Some c\<rparr>))
           | None \<Rightarrow> Inr s2))"

text \<open>
  Lines 460 to 473: the file is opened and the header written. \<^verbatim>\<open>avformat_write_header\<close>
  lets the muxer choose the timebase of each stream.
\<close>

definition write_header :: "engines \<Rightarrow> AVOutputFormat \<Rightarrow> string \<Rightarrow> state \<Rightarrow> (stop \<times> state) + state" where
  "write_header env f filename s =
     (case (if \<not> nofile f then
              (let (ret, s1) = lib env (AvioOpen filename) s
               in if ret < 0 then Inl (Return 1, s1) else Inr s1)
            else Inr s) of
        Inl e \<Rightarrow> Inl e
      | Inr s2 \<Rightarrow>
          (let (ret, s3) = lib env AvformatWriteHeader s2;
               s4 = s3\<lparr>audio_st :=
                         map_option (\<lambda>st. st\<lparr>time_base := header_time_base env (trace s2) st\<rparr>)
                           (audio_st s3),
                       video_st :=
                         map_option (\<lambda>st. st\<lparr>time_base := header_time_base env (trace s2) st\<rparr>)
                           (video_st s3)\<rparr>
           in if ret < 0 then Inl (Return 1, s4) else Inr (s4\<lparr>flush := False\<rparr>)))"

text \<open>
  Lines 418 to 473 of \<^verbatim>\<open>main\<close>: everything before the loop. The two \<^verbatim>\<open>assert\<close>s stand
  as the source has them (\<^verbatim>\<open>NDEBUG\<close> is not defined there).
\<close>

definition main_setup :: "engines \<Rightarrow> (stop \<times> state) + state" where
  "main_setup env =
     (case alloc_context env ''test.avi'' init_state of
        Inl e \<Rightarrow> Inl e
      | Inr s1 \<Rightarrow>
          (let f = the (fmt s1)
           in if audio_codec f \<noteq> AV_CODEC_ID_MP3 then Inl (Abort, s1)
              else if video_codec f \<noteq> AV_CODEC_ID_MPEG4 then Inl (Abort, s1)
              else
                (case add_streams env f s1 of
                   Inl e \<Rightarrow> Inl e
                 | Inr s2 \<Rightarrow>
                     (case open_streams env s2 of
                        Inl e \<Rightarrow> Inl e
                      | Inr s3 \<Rightarrow> write_header env f ''test.avi'' s3))))"

text \<open>Lines 498 to 512 of \<^verbatim>\<open>main\<close>: everything after the loop.\<close>

definition main_finish :: "engines \<Rightarrow> state \<Rightarrow> state" where
  "main_finish env s =
     (let s1 = snd (lib env AvWriteTrailer s);
          s2 = (if video_st s1 \<noteq> None then close_video env s1 else s1);
          s3 = (if audio_st s2 \<noteq> None then close_audio env s2 else s2);
          s4 = (if \<not> nofile (the (fmt s3)) then snd (lib env AvioClose s3) else s3)
      in snd (lib env AvformatFreeContext s4))"

text \<open>
  \<^verbatim>\<open>main\<close>, lines 416 to 513: how the process ends and the state then; \<open>None\<close> when the
  loop is still running after \<open>n\<close> iterations.
\<close>

definition main :: "engines \<Rightarrow> nat \<Rightarrow> (stop \<times> state) option" where
  "main env n =
     (case main_setup env of
        Inl e \<Rightarrow> Some e
      | Inr s \<Rightarrow>
          (case sched_loop env n s of
             None \<Rightarrow> None
           | Some (Inl e) \<Rightarrow> Some e
           | Some (Inr s') \<Rightarrow> Some (Return 0, main_finish env s')))"

section \<open>Reading the history\<close>

text \<open>The state in which a function ends, whether it returns or stops the process.\<close>

fun state_of :: "(stop \<times> state) + state \<Rightarrow> state" where
  "state_of (Inl (e, s)) = s"
| "state_of (Inr s) = s"

text \<open>The calls of the two encoders in a history, and the events that mark its phases.\<close>

fun is_audio_call :: "event \<Rightarrow> bool" where
  "is_audio_call (EncodeAudio frame r) = True"
| "is_audio_call ev = False"

fun is_video_call :: "event \<Rightarrow> bool" where
  "is_video_call (EncodeVideo frame r) = True"
| "is_video_call ev = False"

fun is_trailer :: "event \<Rightarrow> bool" where
  "is_trailer (Called AvWriteTrailer r) = True"
| "is_trailer ev = False"

fun is_header :: "event \<Rightarrow> bool" where
  "is_header (Called AvformatWriteHeader r) = True"
| "is_header ev = False"

fun is_find_encoder :: "event \<Rightarrow> bool" where
  "is_find_encoder (FindEncoder cid r) = True"
| "is_find_encoder ev = False"

definition audio_calls :: "event list \<Rightarrow> event list" where
  "audio_calls h = filter is_audio_call h"

definition video_calls :: "event list \<Rightarrow> event list" where
  "video_calls h = filter is_video_call h"

definition trailer_calls :: "event list \<Rightarrow> event list" where
  "trailer_calls h = filter is_trailer h"

definition header_calls :: "event list \<Rightarrow> event list" where
  "header_calls h = filter is_header h"

definition encoder_lookups :: "event list \<Rightarrow> event list" where
  "encoder_lookups h = filter is_find_encoder h"

text \<open>
  \<open>quiet s s'\<close>: from \<open>s\<close> to \<open>s'\<close> nothing that the scheduler reads has changed, and no
  encoder call, header, trailer or encoder lookup has been added to the history.
\<close>

definition quiet :: "state \<Rightarrow> state \<Rightarrow> bool" where
  "quiet s s' =
     (audio_is_eof s' = audio_is_eof s \<and> video_is_eof s' = video_is_eof s
      \<and> audio_pts s' = audio_pts s \<and> video_pts s' = video_pts s
      \<and> flush s' = flush s \<and> fmt s' = fmt s
      \<and> audio_st s' = audio_st s \<and> video_st s' = video_st s
      \<and> frame_count s' = frame_count s \<and> frame_pts s' = frame_pts s
      \<and> audio_calls (trace s') = audio_calls (trace s)
      \<and> video_calls (trace s') = video_calls (trace s)
      \<and> trailer_calls (trace s') = trailer_calls (trace s)
      \<and> header_calls (trace s') = header_calls (trace s)
      \<and> encoder_lookups (trace s') = encoder_lookups (trace s))"

text \<open>
  \<open>audio_stepped env st fl s w\<close>: what \<open>write_audio_frame env st fl\<close>, started in \<open>s\<close>
  and ending as \<open>w\<close>, has done. It has left the video side, \<open>flush\<close> and the streams
  alone. Either it has stopped before the encoder was called, or it has called the audio
  encoder once, with a null frame exactly when \<open>fl\<close> holds, and then: \<open>audio_is_eof\<close> is
  set when the encoder gave no packet under \<open>fl\<close>; an encoder error stops the process;
  without a packet the step returns and \<open>audio_pts\<close> stays; with a packet written
  \<open>audio_pts\<close> is the value of line 270.
\<close>

definition audio_stepped :: "engines \<Rightarrow> AVStream \<Rightarrow> bool \<Rightarrow> state \<Rightarrow> (stop \<times> state) + state \<Rightarrow> bool" where
  "audio_stepped env st fl s w =
     (video_is_eof (state_of w) = video_is_eof s \<and> video_pts (state_of w) = video_pts s
      \<and> flush (state_of w) = flush s \<and> fmt (state_of w) = fmt s
      \<and> audio_st (state_of w) = audio_st s \<and> video_st (state_of w) = video_st s
      \<and> frame_count (state_of w) = frame_count s \<and> frame_pts (state_of w) = frame_pts s
      \<and> video_calls (trace (state_of w)) = video_calls (trace s)
      \<and> trailer_calls (trace (state_of w)) = trailer_calls (trace s)
      \<and> header_calls (trace (state_of w)) = header_calls (trace s)
      \<and> encoder_lookups (trace (state_of w)) = encoder_lookups (trace s)
      \<and> (isl w \<and> \<not> fl \<and> audio_calls (trace (state_of w)) = audio_calls (trace s)
            \<and> audio_is_eof (state_of w) = audio_is_eof s
          \<or> (\<exists>frame r.
                (frame = None) = fl
                \<and> audio_calls (trace (state_of w)) = audio_calls (trace s) @ [EncodeAudio frame r]
                \<and> audio_is_eof (state_of w) = (audio_is_eof s \<or> fl \<and> r = NoPacket)
                \<and> (r = EncodeError \<and> isl w
                    \<or> r = NoPacket \<and> \<not> isl w \<and> audio_pts (state_of w) = audio_pts s
                    \<or> (\<exists>pkt. r = GotPacket pkt)
                       \<and> (isl w
                           \<or> audio_pts (state_of w) =
                               audio_running_time env st (samples_count (state_of w)))))))"

text \<open>
  \<open>video_stepped fl s w\<close>: the same for \<open>write_video_frame\<close>. When the step returns, the
  frame counter is one more than before and \<open>video_pts\<close> is the counter before the call.
\<close>

definition video_stepped :: "bool \<Rightarrow> state \<Rightarrow> (stop \<times> state) + state \<Rightarrow> bool" where
  "video_stepped fl s w =
     (audio_is_eof (state_of w) = audio_is_eof s \<and> audio_pts (state_of w) = audio_pts s
      \<and> flush (state_of w) = flush s \<and> fmt (state_of w) = fmt s
      \<and> audio_st (state_of w) = audio_st s \<and> video_st (state_of w) = video_st s
      \<and> audio_calls (trace (state_of w)) = audio_calls (trace s)
      \<and> trailer_calls (trace (state_of w)) = trailer_calls (trace s)
      \<and> header_calls (trace (state_of w)) = header_calls (trace s)
      \<and> encoder_lookups (trace (state_of w)) = encoder_lookups (trace s)
      \<and> (if isl w then frame_count (state_of w) = frame_count s
             \<and> video_pts (state_of w) = video_pts s
          else frame_count (state_of w) = frame_count s + 1
             \<and> video_pts (state_of w) = real_of_int (frame_count s))
      \<and> (isl w \<and> \<not> fl \<and> video_calls (trace (state_of w)) = video_calls (trace s)
            \<and> video_is_eof (state_of w) = video_is_eof s
          \<or> (\<exists>r.
                video_calls (trace (state_of w)) =
                  video_calls (trace s) @
                    [EncodeVideo (if fl then None else Some (frame_count s)) r]
                \<and> video_is_eof (state_of w) = (video_is_eof s \<or> fl \<and> r = NoPacket)
                \<and> (r = EncodeError \<and> isl w
                    \<or> r = NoPacket \<and> \<not> isl w
                    \<or> (\<exists>pkt. r = GotPacket pkt)))))"

text \<open>
  \<open>eof_once drain eof calls\<close>, for the calls of one encoder in a history and the
  end-of-stream flag of its stream: the flag is set exactly when the encoder has answered a
  flush call with no packet (the event \<open>drain\<close>), and then that call is the only such one
  and the last call of this encoder.
\<close>

definition eof_once :: "event \<Rightarrow> bool \<Rightarrow> event list \<Rightarrow> bool" where
  "eof_once drain eof calls =
     (if eof then calls \<noteq> [] \<and> last calls = drain \<and> drain \<notin> set (butlast calls)
      else drain \<notin> set calls)"

text \<open>
  The lookups that the two assertions of \<^verbatim>\<open>main\<close> allow: the encoder of MPEG-4 and the
  encoder of MP3.
\<close>

fun asserted_lookup :: "event \<Rightarrow> bool" where
  "asserted_lookup (FindEncoder cid r) = (cid = AV_CODEC_ID_MPEG4 \<or> cid = AV_CODEC_ID_MP3)"
| "asserted_lookup ev = False"

text \<open>
  \<open>setup_stopped e s\<close>: the process has ended as \<open>e\<close> in state \<open>s\<close> before the loop.
  No pipeline has run. Without an output context \<^verbatim>\<open>main\<close> returns 1; with a format whose
  default codecs are not MP3 and MPEG-4 an assertion fails before any encoder is looked up;
  otherwise a step of the setup has failed.
  \<open>setup_done s\<close>: the loop is entered in state \<open>s\<close>. The format has the default codecs
  MP3 and MPEG-4, both streams exist, the header has been written with a non-negative
  result, \<open>flush\<close> is off and no pipeline has run.
\<close>

definition setup_stopped :: "stop \<Rightarrow> state \<Rightarrow> bool" where
  "setup_stopped e s =
     (\<exists>ft vs as evs.
        quiet (init_state\<lparr>fmt := ft, video_st := vs, audio_st := as, trace := evs\<rparr>) s
        \<and> list_all (\<lambda>ev. asserted_lookup ev \<or> is_header ev) evs
        \<and> (case ft of
              None \<Rightarrow> e = Return 1 \<and> evs = []
            | Some f \<Rightarrow>
                if audio_codec f = AV_CODEC_ID_MP3 \<and> video_codec f = AV_CODEC_ID_MPEG4
                then e = Exit 1 \<or> e = Return 1
                else e = Abort \<and> evs = []))"

definition setup_done :: "state \<Rightarrow> bool" where
  "setup_done s =
     (\<exists>f vs as evs r.
        quiet (init_state\<lparr>fmt := Some f, video_st := Some vs, audio_st := Some as,
                 trace := evs @ [Called AvformatWriteHeader r]\<rparr>) s
        \<and> 0 \<le> r \<and> list_all asserted_lookup evs
        \<and> audio_codec f = AV_CODEC_ID_MP3 \<and> video_codec f = AV_CODEC_ID_MPEG4)"

section \<open>Example engines\<close>

text \<open>
  Engines for concrete runs. The container format has the default codecs MP3 and MPEG-4.
  The audio encoder takes frames of 240000 samples in a planar float format (so the
  resampler is used, and it reports a delay of 16 samples) and gives a packet for every
  frame. The video encoder holds one frame back: the first frame gives no packet, and a
  flush call gives the frame held back, then nothing. The muxer gives the audio stream the
  timebase 1/48000 and the video stream the timebase 5/1, so that one audio frame and two
  video frames reach the five seconds. No call fails, and the arithmetic of \<^verbatim>\<open>double\<close> is
  exact on the numbers of these runs.
\<close>

fun is_new_stream :: "event \<Rightarrow> bool" where
  "is_new_stream (NewStream r) = True"
| "is_new_stream ev = False"

fun video_submitted :: "event \<Rightarrow> bool" where
  "video_submitted (EncodeVideo (Some p) r) = True"
| "video_submitted ev = False"

fun video_delivered :: "event \<Rightarrow> bool" where
  "video_delivered (EncodeVideo frame (GotPacket pkt)) = True"
| "video_delivered ev = False"

definition demo_stream :: AVStream where
  "demo_stream =
     \<lparr>index = 0, st_id = 0, time_base = \<lparr>num = 1, den = 90000\<rparr>,
      c_codec_id = AV_CODEC_ID_NONE, c_sample_fmt = AV_SAMPLE_FMT_S16, c_bit_rate = 0,
      c_sample_rate = 0, c_channels = 0, c_frame_size = 0, c_width = 0, c_height = 0,
      c_time_base = \<lparr>num = 0, den = 1\<rparr>, c_gop_size = 0, c_max_b_frames = 0,
      c_mb_decision = 0\<rparr>"

definition demo_status :: "event list \<Rightarrow> libcall \<Rightarrow> int" where
  "demo_status h c =
     (case c of
        SwrGetDelay rate \<Rightarrow> 16
      | AvFrameAlloc \<Rightarrow> 1
      | SwrAlloc \<Rightarrow> 1
      | SwsGetContext \<Rightarrow> 1
      | _ \<Rightarrow> 0)"

definition demo_encode_audio :: "event list \<Rightarrow> (int \<times> int) option \<Rightarrow> enc_result" where
  "demo_encode_audio h frame =
     (case frame of
        None \<Rightarrow> NoPacket
      | Some (n, p) \<Rightarrow> GotPacket \<lparr>pts = p, dts = p, duration = n, stream_index = 0\<rparr>)"

definition demo_encode_video :: "event list \<Rightarrow> int option \<Rightarrow> enc_result" where
  "demo_encode_video h frame =
     (case frame of
        None \<Rightarrow>
          (if length (filter video_delivered h) < length (filter video_submitted h)
           then GotPacket \<lparr>pts = int (length (filter video_delivered h)),
                           dts = int (length (filter video_delivered h)),
                           duration = 1, stream_index = 0\<rparr>
           else NoPacket)
      | Some p \<Rightarrow>
          (if p = 0 then NoPacket
           else GotPacket \<lparr>pts = p - 1, dts = p - 1, duration = 1, stream_index = 0\<rparr>))"

definition demo_engines :: engines where
  "demo_engines =
     \<lparr>avformat_alloc_output_context2 =
        (\<lambda>h name file.
           Some \<lparr>audio_codec = AV_CODEC_ID_MP3, video_codec = AV_CODEC_ID_MPEG4,
                  nofile = False\<rparr>),
      avcodec_find_encoder =
        (\<lambda>h cid.
           if cid = AV_CODEC_ID_MP3
           then Some \<lparr>codec_type = AVMEDIA_TYPE_AUDIO, sample_fmts = Some AV_SAMPLE_FMT_FLTP\<rparr>
           else Some \<lparr>codec_type = AVMEDIA_TYPE_VIDEO, sample_fmts = None\<rparr>),
      avformat_new_stream =
        (\<lambda>h. Some (demo_stream\<lparr>index := int (length (filter is_new_stream h))\<rparr>)),
      avcodec_open2 =
        (\<lambda>h st.
           (0, if c_sample_rate st = 48000
               then st\<lparr>c_frame_size := 240000, c_time_base := \<lparr>num = 1, den = 48000\<rparr>\<rparr>
               else st)),
      av_samples_alloc = (\<lambda>h n. (0, length h, Suc (length h), 4 * n)),
      av_samples_get_buffer_size = (\<lambda>ch n f. ch * n * 4),
      header_time_base =
        (\<lambda>h st.
           if c_sample_rate st = 48000 then \<lparr>num = 1, den = 48000\<rparr>
           else \<lparr>num = 5, den = 1\<rparr>),
      avcodec_encode_audio2 = demo_encode_audio,
      avcodec_encode_video2 = demo_encode_video,
      status = demo_status,
      fmul = (\<lambda>x y. x * y),
      fdiv = (\<lambda>x y. x / y)\<rparr>"

text \<open>
  The state in which the run with the example engines enters the loop, and the state after
  \<open>k\<close> iterations of that run.
\<close>

definition demo_start :: state where
  "demo_start = state_of (main_setup demo_engines)"

fun demo_at :: "nat \<Rightarrow> state" where
  "demo_at 0 = demo_start"
| "demo_at (Suc k) = state_of (loop_body demo_engines (demo_at k))"

text \<open>What the scheduler reads in a state, and what the two pipelines have counted.\<close>

definition observe :: "engines \<Rightarrow> state \<Rightarrow> dtime \<times> dtime \<times> bool \<times> bool \<times> bool \<times> bool \<times> bool" where
  "observe env s =
     (audio_time env s, video_time env s, duration_reached env s, flush s,
      audio_is_eof s, video_is_eof s, loop_cond s)"

definition counters :: "state \<Rightarrow> int \<times> real \<times> int \<times> real \<times> int" where
  "counters s = (frame_count s, video_pts s, samples_count s, audio_pts s, max_dst_nb_samples s)"

text \<open>Both, and whether the iteration that starts in the state stops the process.\<close>

definition snapshot ::
  "engines \<Rightarrow> state \<Rightarrow>
     (dtime \<times> dtime \<times> bool \<times> bool \<times> bool \<times> bool \<times> bool) \<times> (int \<times> real \<times> int \<times> real \<times> int) \<times> bool" where
  "snapshot env s = (observe env s, counters s, isl (loop_body env s))"

text \<open>What the setup has left for the loop.\<close>

definition setup_view ::
  "state \<Rightarrow> AVOutputFormat option \<times> bool \<times> bool \<times> event list \<times> event list \<times> event list" where
  "setup_view s =
     (fmt s, audio_st s = None, video_st s = None, header_calls (trace s),
      audio_calls (trace s), video_calls (trace s))"

text \<open>
  The format that the library deduces for the output file of \<^verbatim>\<open>main\<close>: from the name
  \<^verbatim>\<open>"test.avi"\<close>, and as \<^verbatim>\<open>"avi"\<close> when that gives nothing (lines 432 to 436).
\<close>

definition deduced_format :: "engines \<Rightarrow> AVOutputFormat option" where
  "deduced_format env =
     (case avformat_alloc_output_context2 env [] None ''test.avi'' of
        Some f \<Rightarrow> Some f
      | None \<Rightarrow>
          avformat_alloc_output_context2 env [AllocOutputContext None ''test.avi'' None]
            (Some ''avi'') ''test.avi'')"


definition late_engines :: engines where
  "late_engines =
     demo_engines\<lparr>avcodec_encode_audio2 :=
       (\<lambda>h frame.
          case frame of
            None \<Rightarrow> NoPacket
          | Some (n, p) \<Rightarrow>
              GotPacket \<lparr>pts = p + 1000, dts = p + 1000, duration = 7, stream_index = 0\<rparr>)\<rparr>"

definition ac3_engines :: engines where
  "ac3_engines =
     demo_engines\<lparr>avformat_alloc_output_context2 :=
       (\<lambda>h name file.
          Some \<lparr>audio_codec = AV_CODEC_ID_OTHER 0, video_codec = AV_CODEC_ID_MPEG4,
                 nofile = False\<rparr>)\<rparr>"

text \<open>How a run has ended, and what its history says about the header and the trailer.\<close>

definition outcome_view ::
  "(stop \<times> state) option \<Rightarrow> (stop \<times> event list \<times> event list \<times> event list \<times> event) option" where
  "outcome_view r =
     map_option
       (\<lambda>(e, s). (e, header_calls (trace s), trailer_calls (trace s),
                   encoder_lookups (trace s), last (trace s)))
       r"

text \<open>
  The state after the first iteration of the run with the given engines: the audio clock,
  the sample counter and the last call into a library.
\<close>

definition first_step :: "engines \<Rightarrow> state" where
  "first_step env = state_of (loop_body env (state_of (main_setup env)))"

definition audio_view :: "state \<Rightarrow> real \<times> int \<times> event" where
  "audio_view s = (audio_pts s, samples_count s, last (trace s))"



subsection \<open>Properties of the rounding\<close>

lemma round_near_inf_nonneg: "0 < c \<Longrightarrow> 0 \<le> a \<Longrightarrow> 0 \<le> round_near_inf a c"
  by (simp add: round_near_inf_def pos_imp_zdiv_nonneg_iff)

lemma round_near_inf_nonpos: "0 < c \<Longrightarrow> a < 0 \<Longrightarrow> round_near_inf a c \<le> 0"
  by (simp add: round_near_inf_def pos_imp_zdiv_nonneg_iff)

lemma round_near_inf_mono:
  assumes c: "0 < c" and le: "a \<le> a'"
  shows "round_near_inf a c \<le> round_near_inf a' c"
proof (cases "0 \<le> a")
  case True
  with le have "0 \<le> a'" by simp
  moreover have "(2 * a + c) div (2 * c) \<le> (2 * a' + c) div (2 * c)"
    using c le by (intro zdiv_mono1) auto
  ultimately show ?thesis using True by (simp add: round_near_inf_def)
next
  case False
  show ?thesis
  proof (cases "0 \<le> a'")
    case True
    have "round_near_inf a c \<le> 0" using False c by (simp add: round_near_inf_nonpos)
    also have "0 \<le> round_near_inf a' c" using True c by (simp add: round_near_inf_nonneg)
    finally show ?thesis .
  next
    case F2: False
    have "(2 * (- a') + c) div (2 * c) \<le> (2 * (- a) + c) div (2 * c)"
      using c le by (intro zdiv_mono1) auto
    then show ?thesis using False F2 by (simp add: round_near_inf_def)
  qed
qed

lemma round_near_inf_exact:
  assumes c: "0 < c"
  shows "round_near_inf (m * c) c = m"
proof -
  have pos: "(2 * (n * c) + c) div (2 * c) = n" if "0 \<le> n" for n
  proof -
    have "2 * (n * c) + c = 2 * c * n + c" by (simp add: algebra_simps)
    moreover have "0 \<le> c" and "c < 2 * c" using c by simp_all
    ultimately show ?thesis by (rule int_div_pos_eq)
  qed
  show ?thesis
  proof (cases "0 \<le> m")
    case True
    then have "0 \<le> m * c" using c by simp
    then show ?thesis using pos [OF True] by (simp add: round_near_inf_def)
  next
    case False
    then have neg: "m * c < 0" using c by (simp add: mult_less_0_iff)
    have "0 \<le> - m" using False by simp
    from pos [OF this] have "(2 * ((- m) * c) + c) div (2 * c) = - m" .
    then show ?thesis using neg by (simp add: round_near_inf_def)
  qed
qed

lemma av_rescale_q_mono:
  assumes "valid_from_base bq" and "valid_to_base cq" and "a \<le> a'"
  shows "av_rescale_q a bq cq \<le> av_rescale_q a' bq cq"
  unfolding av_rescale_q_def
  using assms
  by (intro round_near_inf_mono mult_right_mono) (auto simp: valid_from_base_def valid_to_base_def)

lemma av_rescale_q_down:
  assumes q: "valid_to_base q" and r: "valid_to_base r" and k: "0 < k"
    and m: "multiple_of k q r"
  shows "av_rescale_q (k * w) r q = w" and "av_rescale_q w q r = k * w"
proof -
  let ?c = "num r * den q"
  have c: "0 < ?c" and kc: "0 < k * ?c"
    using q r k by (auto simp: valid_to_base_def)
  have "av_rescale_q (k * w) r q = round_near_inf ((k * w) * ?c) (num q * den r)"
    by (simp add: av_rescale_q_def)
  also have "\<dots> = round_near_inf (w * (k * ?c)) (k * ?c)"
    using m by (simp add: multiple_of_def mult_ac)
  also have "\<dots> = w" using kc by (rule round_near_inf_exact)
  finally show "av_rescale_q (k * w) r q = w" .
  have "av_rescale_q w q r = round_near_inf (w * (num q * den r)) ?c"
    by (simp add: av_rescale_q_def)
  also have "\<dots> = round_near_inf ((k * w) * ?c) ?c"
    using m by (simp add: multiple_of_def mult_ac)
  also have "\<dots> = k * w" using c by (rule round_near_inf_exact)
  finally show "av_rescale_q w q r = k * w" .
qed

text \<open>
  Claim C5. For timebases that the converter accepts (positive denominators, a non-negative
  source numerator and a positive target numerator) and every non-decreasing sequence of
  input timestamps, rescaling with nearest rounding, ties away from zero, gives a
  non-decreasing sequence of output timestamps.
\<close>

theorem rescale_monotone:
  assumes "valid_from_base fromBase" and "valid_to_base toBase" and "sorted ts"
  shows "sorted (map (\<lambda>t. av_rescale_q t fromBase toBase) ts)"
  using assms(3)
proof (induction ts)
  case Nil
  show ?case by simp
next
  case (Cons t ts)
  then have "\<forall>u \<in> set ts. av_rescale_q t fromBase toBase \<le> av_rescale_q u fromBase toBase"
    using av_rescale_q_mono [OF assms(1) assms(2)] by simp
  with Cons show ?case by simp
qed

theorem rescale_monotone_witness:
  "valid_from_base \<lparr>num = 1, den = 48000\<rparr> \<and> valid_to_base \<lparr>num = 1, den = 1000\<rparr>
   \<and> sorted [-24, 0, 23, 24, 1152 :: int]
   \<and> map (\<lambda>t. av_rescale_q t \<lparr>num = 1, den = 48000\<rparr> \<lparr>num = 1, den = 1000\<rparr>)
        [-24, 0, 23, 24, 1152] = [-1, 0, 0, 1, 24]
   \<and> sorted (map (\<lambda>t. av_rescale_q t \<lparr>num = 1, den = 48000\<rparr> \<lparr>num = 1, den = 1000\<rparr>)
        [-24, 0, 23, 24, 1152])"
proof -
  have a: "valid_from_base \<lparr>num = 1, den = 48000\<rparr>" by (simp add: valid_from_base_def)
  have b: "valid_to_base \<lparr>num = 1, den = 1000\<rparr>" by (simp add: valid_to_base_def)
  have c: "sorted [-24, 0, 23, 24, 1152 :: int]" by simp
  have d: "map (\<lambda>t. av_rescale_q t \<lparr>num = 1, den = 48000\<rparr> \<lparr>num = 1, den = 1000\<rparr>)
        [-24, 0, 23, 24, 1152] = [-1, 0, 0, 1, 24]"
    by (simp add: av_rescale_q_def round_near_inf_def)
  show ?thesis using a b c d rescale_monotone [OF a b c] by blast
qed

text \<open>
  Claim C8. When one of the timebases A and B is a positive integer multiple \<open>k\<close> of the
  other and the timestamp is a multiple of \<open>k\<close>, rescaling it from A to B and back from B
  to A, with the same rounding, returns the timestamp.
\<close>

theorem rescale_round_trip:
  assumes "valid_to_base A" and "valid_to_base B" and "0 < k"
    and "multiple_of k B A \<or> multiple_of k A B"
    and "k dvd v"
  shows "av_rescale_q (av_rescale_q v A B) B A = v"
  using assms(4)
proof
  assume m: "multiple_of k B A"
  from assms(5) obtain w where v: "v = k * w" by (auto simp: dvd_def)
  have "av_rescale_q v A B = w"
    unfolding v by (rule av_rescale_q_down(1) [OF assms(2) assms(1) assms(3) m])
  moreover have "av_rescale_q w B A = k * w"
    by (rule av_rescale_q_down(2) [OF assms(2) assms(1) assms(3) m])
  ultimately show ?thesis using v by simp
next
  assume m: "multiple_of k A B"
  have "av_rescale_q v A B = k * v"
    by (rule av_rescale_q_down(2) [OF assms(1) assms(2) assms(3) m])
  moreover have "av_rescale_q (k * v) B A = v"
    by (rule av_rescale_q_down(1) [OF assms(1) assms(2) assms(3) m])
  ultimately show ?thesis by simp
qed

theorem rescale_round_trip_witness:
  "valid_to_base \<lparr>num = 1, den = 48000\<rparr> \<and> valid_to_base \<lparr>num = 1, den = 1000\<rparr>
   \<and> multiple_of 48 \<lparr>num = 1, den = 1000\<rparr> \<lparr>num = 1, den = 48000\<rparr>
   \<and> (48::int) dvd 1152
   \<and> av_rescale_q 1152 \<lparr>num = 1, den = 48000\<rparr> \<lparr>num = 1, den = 1000\<rparr> = 24
   \<and> av_rescale_q (av_rescale_q 1152 \<lparr>num = 1, den = 48000\<rparr> \<lparr>num = 1, den = 1000\<rparr>)
        \<lparr>num = 1, den = 1000\<rparr> \<lparr>num = 1, den = 48000\<rparr> = 1152"
proof -
  have a: "valid_to_base \<lparr>num = 1, den = 48000\<rparr>" by (simp add: valid_to_base_def)
  have b: "valid_to_base \<lparr>num = 1, den = 1000\<rparr>" by (simp add: valid_to_base_def)
  have k: "(0::int) < 48" by simp
  have m: "multiple_of 48 \<lparr>num = 1, den = 1000\<rparr> \<lparr>num = 1, den = 48000\<rparr>"
    by (simp add: multiple_of_def)
  have d: "(48::int) dvd 1152" by simp
  have e: "av_rescale_q 1152 \<lparr>num = 1, den = 48000\<rparr> \<lparr>num = 1, den = 1000\<rparr> = 24"
    by (simp add: av_rescale_q_def round_near_inf_def)
  show ?thesis
    using a b m d e rescale_round_trip [OF a b k disjI1 [OF m] d] by blast
qed

section \<open>What the pipeline steps change\<close>

lemmas calls_defs =
  audio_calls_def video_calls_def trailer_calls_def header_calls_def encoder_lookups_def

lemma quiet_refl [simp]: "quiet s s"
  by (simp add: quiet_def)

lemma quiet_trans: "quiet s s1 \<Longrightarrow> quiet s1 s2 \<Longrightarrow> quiet s s2"
  by (simp add: quiet_def)

lemma lib_quiet:
  "c \<noteq> AvWriteTrailer \<Longrightarrow> c \<noteq> AvformatWriteHeader \<Longrightarrow> quiet s (snd (lib env c s))"
  by (cases c) (simp_all add: lib_def Let_def quiet_def calls_defs)

lemma lib_trace: "trace (snd (lib env c s)) = trace s @ [Called c (fst (lib env c s))]"
  by (simp add: lib_def Let_def)

lemma write_frame_quiet: "quiet s (snd (write_frame env tb st pkt s))"
  unfolding write_frame_def by (rule lib_quiet) simp_all

lemma grow_dst_samples_quiet: "quiet s (state_of (grow_dst_samples env c n s))"
  by (auto simp: grow_dst_samples_def lib_def Let_def quiet_def calls_defs split: prod.splits)

lemma lib_quiet':
  "lib env c s = (r, s') \<Longrightarrow> c \<noteq> AvWriteTrailer \<Longrightarrow> c \<noteq> AvformatWriteHeader \<Longrightarrow> quiet s s'"
  using lib_quiet [of c s env] by simp

lemma grow_dst_samples_quiet':
  "grow_dst_samples env c n s = Inl (e, s') \<Longrightarrow> quiet s s'"
  "grow_dst_samples env c n s = Inr s' \<Longrightarrow> quiet s s'"
  using grow_dst_samples_quiet [of s env c n] by simp_all

lemma convert_samples_quiet:
  "quiet s (case convert_samples env c s of Inl (e, s') \<Rightarrow> s' | Inr (n, s') \<Rightarrow> s')"
proof (cases "swr_ctx s")
  case False
  then show ?thesis by (simp add: convert_samples_def)
next
  case True
  obtain delay s1 where l1: "lib env (SwrGetDelay (c_sample_rate c)) s = (delay, s1)"
    by (cases "lib env (SwrGetDelay (c_sample_rate c)) s")
  then have q1: "quiet s s1" by (rule lib_quiet') simp_all
  define n where "n = av_rescale_rnd_up (delay + src_nb_samples s1) (c_sample_rate c) (c_sample_rate c)"
  show ?thesis
  proof (cases "grow_dst_samples env c n s1")
    case (Inl es)
    obtain e s' where es: "es = (e, s')" by (cases es)
    with Inl q1 grow_dst_samples_quiet'(1) [of env c n s1 e s'] have "quiet s s'"
      by (blast intro: quiet_trans)
    then show ?thesis using True l1 Inl es by (simp add: convert_samples_def n_def)
  next
    case (Inr s2)
    then have q2: "quiet s s2" using q1 grow_dst_samples_quiet'(2) by (blast intro: quiet_trans)
    obtain ret s3 where l3: "lib env (SwrConvert n (src_nb_samples s2)) s2 = (ret, s3)"
      by (cases "lib env (SwrConvert n (src_nb_samples s2)) s2")
    then have "quiet s2 s3" by (rule lib_quiet') simp_all
    with q2 have "quiet s s3" by (rule quiet_trans)
    then show ?thesis using True l1 Inr l3 by (simp add: convert_samples_def n_def)
  qed
qed


lemma audio_input_cases:
  obtains (fail) s1 where "audio_input env c s = Inl (Exit 1, s1)" and "quiet s s1"
  | (ok) s1 where "audio_input env c s = Inr s1" and "quiet s s1"
proof (cases "convert_samples env c s")
  case (Inl es)
  obtain e s1 where es: "es = (e, s1)" by (cases es)
  have q: "quiet s s1" using convert_samples_quiet [of s env c] Inl es by simp
  have "e = Exit 1" using Inl es
    by (auto simp: convert_samples_def grow_dst_samples_def Let_def split: if_splits prod.splits sum.splits)
  then show ?thesis using fail [of s1] q Inl es by (simp add: audio_input_def)
next
  case (Inr ns)
  obtain n s1 where ns: "ns = (n, s1)" by (cases ns)
  have q: "quiet s s1" using convert_samples_quiet [of s env c] Inr ns by simp
  let ?s2 = "s1\<lparr>audio_frame_nb_samples := n,
                audio_frame_pts := av_rescale_q (samples_count s1) \<lparr>num = 1, den = c_sample_rate c\<rparr> (c_time_base c)\<rparr>"
  have q2: "quiet s ?s2" using q by (simp add: quiet_def)
  obtain r s3 where l: "lib env (AvcodecFillAudioFrame (plane0 ?s2 (dst_samples_data ?s2)) (dst_samples_size ?s2)) ?s2 = (r, s3)"
    by (cases "lib env (AvcodecFillAudioFrame (plane0 ?s2 (dst_samples_data ?s2)) (dst_samples_size ?s2)) ?s2")
  then have "quiet ?s2 s3" by (rule lib_quiet') simp_all
  with q2 have "quiet s s3" by (rule quiet_trans)
  then have q3: "quiet s (s3\<lparr>samples_count := samples_count s3 + n\<rparr>)" by (simp add: quiet_def)
  have "audio_input env c s = Inr (s3\<lparr>samples_count := samples_count s3 + n\<rparr>)"
    using Inr ns l by (simp add: audio_input_def Let_def)
  then show ?thesis using ok q3 by blast
qed

lemma write_audio_frame_rule:
  assumes early: "\<And>s1. \<not> fl \<Longrightarrow> quiet s s1 \<Longrightarrow> P (Inl (Exit 1, s1))"
    and encerr: "\<And>s1 frame. quiet s s1 \<Longrightarrow> (frame = None) = fl \<Longrightarrow>
           P (Inl (Exit 1, s1\<lparr>trace := trace s1 @ [EncodeAudio frame EncodeError]\<rparr>))"
    and nopkt: "\<And>s1 frame. quiet s s1 \<Longrightarrow> (frame = None) = fl \<Longrightarrow>
           P (Inr (if fl then s1\<lparr>trace := trace s1 @ [EncodeAudio frame NoPacket], audio_is_eof := True\<rparr>
                   else s1\<lparr>trace := trace s1 @ [EncodeAudio frame NoPacket]\<rparr>))"
    and wrfail: "\<And>s1 s3 frame pkt. quiet s s1 \<Longrightarrow> (frame = None) = fl \<Longrightarrow>
           quiet (s1\<lparr>trace := trace s1 @ [EncodeAudio frame (GotPacket pkt)]\<rparr>) s3 \<Longrightarrow>
           P (Inl (Exit 1, s3))"
    and written: "\<And>s1 s3 frame pkt. quiet s s1 \<Longrightarrow> (frame = None) = fl \<Longrightarrow>
           quiet (s1\<lparr>trace := trace s1 @ [EncodeAudio frame (GotPacket pkt)]\<rparr>) s3 \<Longrightarrow>
           P (Inr (s3\<lparr>audio_pts := audio_running_time env st (samples_count s3)\<rparr>))"
  shows "P (write_audio_frame env st fl s)"
proof -
  have main: "P (write_audio_frame env st fl s)"
    if q: "quiet s s1" and eq: "(if \<not> fl then audio_input env st s else Inr s) = Inr s1" for s1
  proof -
    define frame where "frame = (if fl then None else Some (audio_frame_nb_samples s1, audio_frame_pts s1))"
    have fr: "(frame = None) = fl" by (simp add: frame_def)
    define r where "r = avcodec_encode_audio2 env (trace s1) frame"
    let ?s2 = "s1\<lparr>trace := trace s1 @ [EncodeAudio frame r]\<rparr>"
    have wa: "write_audio_frame env st fl s =
        (case r of
           EncodeError \<Rightarrow> Inl (Exit 1, ?s2)
         | NoPacket \<Rightarrow> Inr (if fl then ?s2\<lparr>audio_is_eof := True\<rparr> else ?s2)
         | GotPacket pkt \<Rightarrow>
             (let (ret, s3) = write_frame env (c_time_base st) st pkt ?s2
              in if ret < 0 then Inl (Exit 1, s3)
                 else Inr (s3\<lparr>audio_pts := audio_running_time env st (samples_count s3)\<rparr>)))"
      unfolding frame_def r_def by (simp add: write_audio_frame_def eq Let_def)
    show ?thesis
    proof (cases r)
      case EncodeError
      then show ?thesis using wa encerr [OF q fr] by simp
    next
      case NoPacket
      then show ?thesis using wa nopkt [OF q fr] by (cases fl) simp_all
    next
      case (GotPacket pkt)
      obtain ret s3 where w: "write_frame env (c_time_base st) st pkt ?s2 = (ret, s3)"
        by (cases "write_frame env (c_time_base st) st pkt ?s2")
      have q3: "quiet (s1\<lparr>trace := trace s1 @ [EncodeAudio frame (GotPacket pkt)]\<rparr>) s3"
        using write_frame_quiet [of ?s2 env "c_time_base st" st pkt] w GotPacket by simp
      show ?thesis using wa w GotPacket wrfail [OF q fr q3] written [OF q fr q3] by simp
    qed
  qed
  show ?thesis
  proof (cases fl)
    case True
    then show ?thesis using main [of s] by simp
  next
    case False
    show ?thesis
    proof (cases rule: audio_input_cases [of env st s])
      case (fail s1)
      then show ?thesis using early [of s1] False by (simp add: write_audio_frame_def)
    next
      case (ok s1)
      then show ?thesis using main [of s1] False by simp
    qed
  qed
qed

lemma video_input_cases:
  obtains (fail) s1 where "video_input env c s = Inl (Exit 1, s1)" and "quiet s s1"
  | (ok) s1 where "video_input env c s = Inr s1" and "quiet s s1"
proof -
  obtain r s0 where l0: "lib env SwsGetContext s = (r, s0)"
    by (cases "lib env SwsGetContext s")
  then have q0: "quiet s s0" by (rule lib_quiet') simp_all
  have scale: "quiet s' (snd (lib env SwsScale s'))" for s'
    by (rule lib_quiet) simp_all
  show ?thesis
  proof (cases "sws_ctx s")
    case True
    then have "video_input env c s = Inr (snd (lib env SwsScale s))"
      by (simp add: video_input_def)
    then show ?thesis using ok scale by blast
  next
    case False
    show ?thesis
    proof (cases "r = 0")
      case True
      then have "video_input env c s = Inl (Exit 1, s0)"
        using False l0 by (simp add: video_input_def)
      then show ?thesis using fail q0 by blast
    next
      case nz: False
      have "quiet s0 (s0\<lparr>sws_ctx := True\<rparr>)" by (simp add: quiet_def)
      with q0 have "quiet s (s0\<lparr>sws_ctx := True\<rparr>)" by (rule quiet_trans)
      then have q: "quiet s (snd (lib env SwsScale (s0\<lparr>sws_ctx := True\<rparr>)))"
        using scale by (rule quiet_trans)
      have "video_input env c s = Inr (snd (lib env SwsScale (s0\<lparr>sws_ctx := True\<rparr>)))"
        using False l0 nz by (simp add: video_input_def)
      then show ?thesis using ok q by blast
    qed
  qed
qed

lemma write_video_frame_rule:
  assumes early: "\<And>s1. \<not> fl \<Longrightarrow> quiet s s1 \<Longrightarrow> P (Inl (Exit 1, s1))"
    and encerr: "\<And>s1 frame. quiet s s1 \<Longrightarrow> frame = (if fl then None else Some (frame_count s)) \<Longrightarrow>
           P (Inl (Exit 1, s1\<lparr>frame_pts := frame_count s,
                               trace := trace s1 @ [EncodeVideo frame EncodeError]\<rparr>))"
    and nopkt: "\<And>s1 frame. quiet s s1 \<Longrightarrow> frame = (if fl then None else Some (frame_count s)) \<Longrightarrow>
           P (Inr (s1\<lparr>frame_pts := frame_count s,
                       trace := trace s1 @ [EncodeVideo frame NoPacket],
                       video_is_eof := fl \<or> video_is_eof s,
                       video_pts := real_of_int (frame_count s),
                       frame_count := frame_count s + 1\<rparr>))"
    and wrfail: "\<And>s1 s4 frame pkt. quiet s s1 \<Longrightarrow> frame = (if fl then None else Some (frame_count s)) \<Longrightarrow>
           quiet (s1\<lparr>frame_pts := frame_count s,
                     trace := trace s1 @ [EncodeVideo frame (GotPacket pkt)]\<rparr>) s4 \<Longrightarrow>
           P (Inl (Exit 1, s4))"
    and written: "\<And>s1 s4 frame pkt. quiet s s1 \<Longrightarrow> frame = (if fl then None else Some (frame_count s)) \<Longrightarrow>
           quiet (s1\<lparr>frame_pts := frame_count s,
                     trace := trace s1 @ [EncodeVideo frame (GotPacket pkt)]\<rparr>) s4 \<Longrightarrow>
           P (Inr (s4\<lparr>video_pts := real_of_int (frame_count s),
                       frame_count := frame_count s + 1\<rparr>))"
  shows "P (write_video_frame env st fl s)"
proof -
  have main: "P (write_video_frame env st fl s)"
    if q: "quiet s s1" and eq: "(if \<not> fl then video_input env st s else Inr s) = Inr s1" for s1
  proof -
    have fc: "frame_count s1 = frame_count s" and ve: "video_is_eof s1 = video_is_eof s"
      using q by (simp_all add: quiet_def)
    define frame where "frame = (if fl then None else Some (frame_count s))"
    define r where "r = avcodec_encode_video2 env (trace s1) frame"
    let ?s3 = "s1\<lparr>frame_pts := frame_count s, trace := trace s1 @ [EncodeVideo frame r]\<rparr>"
    note defs = write_video_frame_def Let_def frame_def
    show ?thesis
    proof (cases r)
      case EncodeError
      then have "write_video_frame env st fl s = Inl (Exit 1, ?s3)"
        using eq fc unfolding r_def by (cases fl) (auto simp: defs)
      then show ?thesis using EncodeError encerr [OF q frame_def] by simp
    next
      case NoPacket
      then have "write_video_frame env st fl s =
          Inr (?s3\<lparr>video_is_eof := fl \<or> video_is_eof s,
                   video_pts := real_of_int (frame_count s),
                   frame_count := frame_count s + 1\<rparr>)"
        using eq fc ve unfolding r_def by (cases fl) (auto simp: defs)
      then show ?thesis using NoPacket nopkt [OF q frame_def] by simp
    next
      case (GotPacket pkt)
      obtain ret s4 where w: "write_frame env (c_time_base st) st pkt ?s3 = (ret, s4)"
        by (cases "write_frame env (c_time_base st) st pkt ?s3")
      have q4: "quiet (s1\<lparr>frame_pts := frame_count s,
                     trace := trace s1 @ [EncodeVideo frame (GotPacket pkt)]\<rparr>) s4"
        using write_frame_quiet [of ?s3 env "c_time_base st" st pkt] w GotPacket by simp
      then have f4: "frame_pts s4 = frame_count s" "frame_count s4 = frame_count s"
        using fc by (simp_all add: quiet_def)
      have "write_video_frame env st fl s =
          (if ret < 0 then Inl (Exit 1, s4)
           else Inr (s4\<lparr>video_pts := real_of_int (frame_count s),
                       frame_count := frame_count s + 1\<rparr>))"
        using eq fc w f4 GotPacket unfolding r_def by (cases fl) (auto simp: defs)
      then show ?thesis
        using wrfail [OF q frame_def q4] written [OF q frame_def q4] by simp
    qed
  qed
  show ?thesis
  proof (cases fl)
    case True
    then show ?thesis using main [of s] by simp
  next
    case False
    show ?thesis
    proof (cases rule: video_input_cases [of env st s])
      case (fail s1)
      then show ?thesis using early [of s1] False by (simp add: write_video_frame_def)
    next
      case (ok s1)
      then show ?thesis using main [of s1] False by simp
    qed
  qed
qed

lemma update_flush_eq: "update_flush env s = s\<lparr>flush := flush s \<or> duration_reached env s\<rparr>"
  by (simp add: update_flush_def)

lemma write_audio_frame_stepped: "audio_stepped env st fl s (write_audio_frame env st fl s)"
  by (rule write_audio_frame_rule) (auto simp: audio_stepped_def quiet_def calls_defs)

lemma write_video_frame_stepped: "video_stepped fl s (write_video_frame env st fl s)"
  by (rule write_video_frame_rule) (auto simp: video_stepped_def quiet_def calls_defs)

section \<open>What the setup changes\<close>

lemma open_video_quiet:
  "open_video env st s = Inl (e, s') \<Longrightarrow> e = Exit 1 \<and> quiet s s'"
  "open_video env st s = Inr (c, s') \<Longrightarrow> quiet s s'"
  by (auto simp: open_video_def lib_def Let_def quiet_def calls_defs split: prod.splits if_splits)

lemma open_resampler_quiet:
  "open_resampler env c s = Inl (e, s') \<Longrightarrow> e = Exit 1 \<and> quiet s s'"
  "open_resampler env c s = Inr s' \<Longrightarrow> quiet s s'"
  by (auto simp: open_resampler_def lib_def Let_def quiet_def calls_defs split: prod.splits if_splits)

lemma open_audio_quiet:
  "open_audio env st s = Inl (e, s') \<Longrightarrow> e = Exit 1 \<and> quiet s s'"
  "open_audio env st s = Inr (c, s') \<Longrightarrow> quiet s s'"
  by (auto simp: open_audio_def lib_def Let_def quiet_def calls_defs split: prod.splits if_splits sum.splits
      dest!: open_resampler_quiet)

lemma alloc_context_effect:
  "case alloc_context env fn s of
     Inl (e, s') \<Rightarrow> e = Return 1 \<and> quiet s s'
   | Inr s' \<Rightarrow> \<exists>f. quiet (s\<lparr>fmt := Some f\<rparr>) s'"
  by (auto simp: alloc_context_def Let_def quiet_def calls_defs split: option.splits)

lemma add_stream_effect:
  "case add_stream env cid s of
     Inl (e, s') \<Rightarrow> e = Exit 1 \<and> (\<exists>r. quiet (s\<lparr>trace := trace s @ [FindEncoder cid r]\<rparr>) s')
   | Inr (cd, st, s') \<Rightarrow> \<exists>r. quiet (s\<lparr>trace := trace s @ [FindEncoder cid r]\<rparr>) s'"
  by (auto simp: add_stream_def Let_def quiet_def calls_defs split: option.splits)

lemma add_streams_effect:
  assumes "video_codec f = AV_CODEC_ID_MPEG4" and "audio_codec f = AV_CODEC_ID_MP3"
  shows "case add_streams env f s of
     Inl (e, s') \<Rightarrow> e = Exit 1
       \<and> (\<exists>vs as evs. quiet (s\<lparr>video_st := vs, audio_st := as, trace := trace s @ evs\<rparr>) s'
             \<and> list_all asserted_lookup evs)
   | Inr s' \<Rightarrow>
       (\<exists>vs as evs. quiet (s\<lparr>video_st := Some vs, audio_st := Some as, trace := trace s @ evs\<rparr>) s'
             \<and> list_all asserted_lookup evs)"
proof (cases "add_stream env AV_CODEC_ID_MPEG4 s")
  case (Inl es)
  obtain e s1 where es: "es = (e, s1)" by (cases es)
  from add_stream_effect [where env = env and cid = AV_CODEC_ID_MPEG4 and s = s] Inl es
  obtain r where e: "e = Exit 1"
    and q: "quiet (s\<lparr>trace := trace s @ [FindEncoder AV_CODEC_ID_MPEG4 r]\<rparr>) s1"
    by auto
  have "\<exists>vs as evs. quiet (s\<lparr>video_st := vs, audio_st := as, trace := trace s @ evs\<rparr>) s1
      \<and> list_all asserted_lookup evs"
    by (rule exI [of _ "video_st s1"], rule exI [of _ "audio_st s1"],
        rule exI [of _ "[FindEncoder AV_CODEC_ID_MPEG4 r]"])
      (use q in \<open>simp add: quiet_def\<close>)
  then show ?thesis using Inl es e assms by (simp add: add_streams_def)
next
  case (Inr x)
  obtain cd st s1 where x: "x = (cd, st, s1)" by (cases x)
  from add_stream_effect [where env = env and cid = AV_CODEC_ID_MPEG4 and s = s] Inr x
  obtain r where q1: "quiet (s\<lparr>trace := trace s @ [FindEncoder AV_CODEC_ID_MPEG4 r]\<rparr>) s1"
    by auto
  let ?s2 = "s1\<lparr>video_st := Some st\<rparr>"
  show ?thesis
  proof (cases "add_stream env AV_CODEC_ID_MP3 ?s2")
    case (Inl es)
    obtain e s3 where es: "es = (e, s3)" by (cases es)
    from add_stream_effect [where env = env and cid = AV_CODEC_ID_MP3 and s = "?s2"] Inl es
    obtain r2 where e: "e = Exit 1"
      and q: "quiet (?s2\<lparr>trace := trace ?s2 @ [FindEncoder AV_CODEC_ID_MP3 r2]\<rparr>) s3"
      by auto
    have "\<exists>vs as evs. quiet (s\<lparr>video_st := vs, audio_st := as, trace := trace s @ evs\<rparr>) s3
        \<and> list_all asserted_lookup evs"
      by (rule exI [of _ "video_st s3"], rule exI [of _ "audio_st s3"],
          rule exI [of _ "[FindEncoder AV_CODEC_ID_MPEG4 r, FindEncoder AV_CODEC_ID_MP3 r2]"])
        (use q q1 in \<open>simp add: quiet_def calls_defs\<close>)
    then show ?thesis using Inr x Inl es e assms by (simp add: add_streams_def)
  next
    case Inr2: (Inr y)
    obtain cd2 st2 s3 where y: "y = (cd2, st2, s3)" by (cases y)
    from add_stream_effect [where env = env and cid = AV_CODEC_ID_MP3 and s = "?s2"] Inr2 y
    obtain r2 where q: "quiet (?s2\<lparr>trace := trace ?s2 @ [FindEncoder AV_CODEC_ID_MP3 r2]\<rparr>) s3"
      by auto
    have "\<exists>vs as evs. quiet (s\<lparr>video_st := Some vs, audio_st := Some as, trace := trace s @ evs\<rparr>)
          (s3\<lparr>audio_st := Some st2\<rparr>)
        \<and> list_all asserted_lookup evs"
      by (rule exI [of _ st], rule exI [of _ st2],
          rule exI [of _ "[FindEncoder AV_CODEC_ID_MPEG4 r, FindEncoder AV_CODEC_ID_MP3 r2]"])
        (use q q1 in \<open>simp add: quiet_def calls_defs\<close>)
    then show ?thesis using Inr x Inr2 y assms by (simp add: add_streams_def)
  qed
qed

lemma open_streams_effect:
  "case open_streams env s of
     Inl (e, s') \<Rightarrow> e = Exit 1
        \<and> (\<exists>vs as. quiet (s\<lparr>video_st := vs, audio_st := as\<rparr>) s')
   | Inr s' \<Rightarrow>
       (\<exists>vs as. quiet (s\<lparr>video_st := vs, audio_st := as\<rparr>) s'
            \<and> (vs = None) = (video_st s = None) \<and> (as = None) = (audio_st s = None))"
  unfolding open_streams_def
  by (auto split: option.splits sum.splits dest!: open_video_quiet open_audio_quiet
      simp: quiet_def intro!: exI)

lemma write_header_effect:
  "case write_header env f fn s of
     Inl (e, s') \<Rightarrow> e = Return 1
        \<and> (\<exists>vs as evs. quiet (s\<lparr>video_st := vs, audio_st := as, trace := trace s @ evs\<rparr>) s'
              \<and> (evs = [] \<or> (\<exists>r<0. evs = [Called AvformatWriteHeader r])))
   | Inr s' \<Rightarrow>
       (\<exists>vs as r. 0 \<le> r
          \<and> quiet (s\<lparr>video_st := vs, audio_st := as, flush := False,
                     trace := trace s @ [Called AvformatWriteHeader r]\<rparr>) s'
          \<and> (vs = None) = (video_st s = None) \<and> (as = None) = (audio_st s = None))"
proof -
  define hdr where "hdr s2 = write_header env (f\<lparr>nofile := True\<rparr>) fn s2" for s2
  have hdr: "case hdr s2 of
     Inl (e, s') \<Rightarrow> e = Return 1
        \<and> (\<exists>vs as r. r < 0 \<and> quiet (s2\<lparr>video_st := vs, audio_st := as,
                     trace := trace s2 @ [Called AvformatWriteHeader r]\<rparr>) s')
   | Inr s' \<Rightarrow>
       (\<exists>vs as r. 0 \<le> r
          \<and> quiet (s2\<lparr>video_st := vs, audio_st := as, flush := False,
                     trace := trace s2 @ [Called AvformatWriteHeader r]\<rparr>) s'
          \<and> (vs = None) = (video_st s2 = None) \<and> (as = None) = (audio_st s2 = None))" for s2
    unfolding hdr_def write_header_def lib_def Let_def
    by (auto simp: quiet_def calls_defs intro!: exI)
  show ?thesis
  proof (cases "nofile f")
    case True
    then have "write_header env f fn s = hdr s"
      by (simp add: hdr_def write_header_def)
    then show ?thesis using hdr [of s] by (auto split: sum.splits)
  next
    case False
    obtain ret s1 where l: "lib env (AvioOpen fn) s = (ret, s1)"
      by (cases "lib env (AvioOpen fn) s")
    then have q: "quiet s s1" by (rule lib_quiet') simp_all
    show ?thesis
    proof (cases "ret < 0")
      case True
      have "\<exists>vs as evs. quiet (s\<lparr>video_st := vs, audio_st := as, trace := trace s @ evs\<rparr>) s1
              \<and> (evs = [] \<or> (\<exists>r<0. evs = [Called AvformatWriteHeader r]))"
        by (rule exI [of _ "video_st s1"], rule exI [of _ "audio_st s1"], rule exI [of _ "[]"])
          (use q in \<open>simp add: quiet_def\<close>)
      moreover have "write_header env f fn s = Inl (Return 1, s1)"
        using False l True by (simp add: write_header_def)
      ultimately show ?thesis by simp
    next
      case nn: False
      have eq: "write_header env f fn s = hdr s1"
        using False l nn by (simp add: hdr_def write_header_def)
      show ?thesis
      proof (cases "hdr s1")
        case (Inl es)
        obtain e s' where es: "es = (e, s')" by (cases es)
        from hdr [of s1] Inl es obtain vs as r where e: "e = Return 1" and r: "r < 0"
          and q2: "quiet (s1\<lparr>video_st := vs, audio_st := as,
                     trace := trace s1 @ [Called AvformatWriteHeader r]\<rparr>) s'"
          by auto
        have "\<exists>vs as evs. quiet (s\<lparr>video_st := vs, audio_st := as, trace := trace s @ evs\<rparr>) s'
              \<and> (evs = [] \<or> (\<exists>r<0. evs = [Called AvformatWriteHeader r]))"
          by (rule exI [of _ vs], rule exI [of _ as], rule exI [of _ "[Called AvformatWriteHeader r]"])
            (use q q2 r in \<open>simp add: quiet_def calls_defs\<close>)
        then show ?thesis using eq Inl es e by simp
      next
        case (Inr s')
        from hdr [of s1] Inr obtain vs as r where r: "0 \<le> r"
          and q2: "quiet (s1\<lparr>video_st := vs, audio_st := as, flush := False,
                     trace := trace s1 @ [Called AvformatWriteHeader r]\<rparr>) s'"
          and n: "(vs = None) = (video_st s1 = None)" "(as = None) = (audio_st s1 = None)"
          by auto
        have "\<exists>vs as r. 0 \<le> r
          \<and> quiet (s\<lparr>video_st := vs, audio_st := as, flush := False,
                     trace := trace s @ [Called AvformatWriteHeader r]\<rparr>) s'
          \<and> (vs = None) = (video_st s = None) \<and> (as = None) = (audio_st s = None)"
          by (rule exI [of _ vs], rule exI [of _ as], rule exI [of _ r])
            (use q q2 r n in \<open>simp add: quiet_def calls_defs\<close>)
        then show ?thesis using eq Inr by simp
      qed
    qed
  qed
qed

lemma main_setup_effect:
  "case main_setup env of Inl (e, s) \<Rightarrow> setup_stopped e s | Inr s \<Rightarrow> setup_done s"
proof (cases "alloc_context env ''test.avi'' init_state")
  case (Inl es)
  obtain e s1 where es: "es = (e, s1)" by (cases es)
  from alloc_context_effect [where env = env and fn = "''test.avi''" and s = init_state] Inl es
  have e: "e = Return 1" and q: "quiet init_state s1" by auto
  have "setup_stopped (Return 1) s1"
    unfolding setup_stopped_def
    by (rule exI [of _ None], rule exI [of _ None], rule exI [of _ None], rule exI [of _ "[]"])
      (use q in \<open>simp add: quiet_def init_state_def\<close>)
  then show ?thesis using Inl es e by (simp add: main_setup_def)
next
  case (Inr s1)
  from alloc_context_effect [where env = env and fn = "''test.avi''" and s = init_state] Inr
  obtain f where q1: "quiet (init_state\<lparr>fmt := Some f\<rparr>) s1" by auto
  then have f: "fmt s1 = Some f" by (simp add: quiet_def)
  show ?thesis
  proof (cases "audio_codec f = AV_CODEC_ID_MP3 \<and> video_codec f = AV_CODEC_ID_MPEG4")
    case False
    have "setup_stopped Abort s1"
      unfolding setup_stopped_def
      by (rule exI [of _ "Some f"], rule exI [of _ None], rule exI [of _ None], rule exI [of _ "[]"])
        (use q1 False in \<open>auto simp: quiet_def init_state_def\<close>)
    moreover have "main_setup env = Inl (Abort, s1)"
      using Inr f False by (auto simp: main_setup_def)
    ultimately show ?thesis by simp
  next
    case True
    then have ac: "audio_codec f = AV_CODEC_ID_MP3" and vc: "video_codec f = AV_CODEC_ID_MPEG4"
      by simp_all
    have eq2: "main_setup env =
        (case add_streams env f s1 of
           Inl e \<Rightarrow> Inl e
         | Inr s2 \<Rightarrow>
             (case open_streams env s2 of
                Inl e \<Rightarrow> Inl e
              | Inr s3 \<Rightarrow> write_header env f ''test.avi'' s3))"
      using Inr f True by (simp add: main_setup_def)
    show ?thesis
    proof (cases "add_streams env f s1")
      case (Inl es)
      obtain e s2 where es: "es = (e, s2)" by (cases es)
      from add_streams_effect [OF vc ac, where env = env and s = s1] Inl es
      obtain vs as evs where e: "e = Exit 1"
        and q2: "quiet (s1\<lparr>video_st := vs, audio_st := as, trace := trace s1 @ evs\<rparr>) s2"
        and l: "list_all asserted_lookup evs"
        by auto
      have "setup_stopped (Exit 1) s2"
        unfolding setup_stopped_def
        by (rule exI [of _ "Some f"], rule exI [of _ vs], rule exI [of _ as], rule exI [of _ evs])
          (use q1 q2 l True in \<open>auto simp: quiet_def init_state_def calls_defs list_all_iff\<close>)
      then show ?thesis using eq2 Inl es e by simp
    next
      case Inr2: (Inr s2)
      from add_streams_effect [OF vc ac, where env = env and s = s1] Inr2
      obtain vs as evs
        where q2: "quiet (s1\<lparr>video_st := Some vs, audio_st := Some as, trace := trace s1 @ evs\<rparr>) s2"
        and l: "list_all asserted_lookup evs"
        by auto
      show ?thesis
      proof (cases "open_streams env s2")
        case (Inl es)
        obtain e s3 where es: "es = (e, s3)" by (cases es)
        from open_streams_effect [where env = env and s = s2] Inl es
        obtain vs' as' where e: "e = Exit 1"
          and q3: "quiet (s2\<lparr>video_st := vs', audio_st := as'\<rparr>) s3"
          by auto
        have "setup_stopped (Exit 1) s3"
          unfolding setup_stopped_def
          by (rule exI [of _ "Some f"], rule exI [of _ vs'], rule exI [of _ as'], rule exI [of _ evs])
            (use q1 q2 q3 l True in \<open>auto simp: quiet_def init_state_def calls_defs list_all_iff\<close>)
        then show ?thesis using eq2 Inr2 Inl es e by simp
      next
        case Inr3: (Inr s3)
        from open_streams_effect [where env = env and s = s2] Inr3
        obtain vs' as' where q3: "quiet (s2\<lparr>video_st := vs', audio_st := as'\<rparr>) s3"
          and n3: "(vs' = None) = (video_st s2 = None)" "(as' = None) = (audio_st s2 = None)"
          by auto
        have st3: "video_st s3 \<noteq> None" "audio_st s3 \<noteq> None"
          using q2 q3 n3 by (auto simp: quiet_def)
        show ?thesis
        proof (cases "write_header env f ''test.avi'' s3")
          case (Inl es)
          obtain e s4 where es: "es = (e, s4)" by (cases es)
          from write_header_effect [where env = env and f = f and fn = "''test.avi''" and s = s3]
            Inl es
          obtain vs4 as4 hevs where e: "e = Return 1"
            and q4: "quiet (s3\<lparr>video_st := vs4, audio_st := as4, trace := trace s3 @ hevs\<rparr>) s4"
            and h: "hevs = [] \<or> (\<exists>r<0. hevs = [Called AvformatWriteHeader r])"
            by auto
          have "setup_stopped (Return 1) s4"
            unfolding setup_stopped_def
            by (rule exI [of _ "Some f"], rule exI [of _ vs4], rule exI [of _ as4],
                rule exI [of _ "evs @ hevs"])
              (use q1 q2 q3 q4 l h True in
                \<open>auto simp: quiet_def init_state_def calls_defs list_all_iff\<close>)
          then show ?thesis using eq2 Inr2 Inr3 Inl es e by simp
        next
          case Inr4: (Inr s4)
          from write_header_effect [where env = env and f = f and fn = "''test.avi''" and s = s3]
            Inr4
          obtain vs4 as4 r where r: "0 \<le> r"
            and q4: "quiet (s3\<lparr>video_st := vs4, audio_st := as4, flush := False,
                       trace := trace s3 @ [Called AvformatWriteHeader r]\<rparr>) s4"
            and n4: "(vs4 = None) = (video_st s3 = None)" "(as4 = None) = (audio_st s3 = None)"
            by auto
          from n4 st3 obtain v4 a4 where va: "vs4 = Some v4" "as4 = Some a4" by auto
          have "setup_done s4"
            unfolding setup_done_def
            by (rule exI [of _ f], rule exI [of _ v4], rule exI [of _ a4], rule exI [of _ evs],
                rule exI [of _ r])
              (use q1 q2 q3 q4 l r va True in
                \<open>auto simp: quiet_def init_state_def calls_defs list_all_iff\<close>)
          then show ?thesis using eq2 Inr2 Inr3 Inr4 by simp
        qed
      qed
    qed
  qed
qed

section \<open>The loop and the runs of main\<close>

lemma dle_dlt: "dlt v a = (\<not> dle a v)"
  by (cases a; cases v) auto

lemma loop_body_cases:
  obtains (audio) st where "audio_st s = Some st" and "\<not> audio_is_eof s"
      and "dle (audio_time env s) (video_time env s)"
      and "loop_body env s =
             write_audio_frame env st (flush s \<or> duration_reached env s) (update_flush env s)"
  | (video) st where "video_st s = Some st" and "\<not> video_is_eof s"
      and "dlt (video_time env s) (audio_time env s)"
      and "\<not> (audio_st s \<noteq> None \<and> \<not> audio_is_eof s \<and> dle (audio_time env s) (video_time env s))"
      and "loop_body env s =
             write_video_frame env st (flush s \<or> duration_reached env s) (update_flush env s)"
  | (idle) "\<not> loop_cond s" and "loop_body env s = Inr (update_flush env s)"
proof (cases "audio_st s \<noteq> None \<and> \<not> audio_is_eof s \<and> dle (audio_time env s) (video_time env s)")
  case True
  then obtain st where st: "audio_st s = Some st" by auto
  have "loop_body env s =
      write_audio_frame env st (flush s \<or> duration_reached env s) (update_flush env s)"
    using True st by (simp add: loop_body_def update_flush_eq Let_def)
  then show ?thesis using True st audio [of st] by blast
next
  case False
  show ?thesis
  proof (cases "video_st s \<noteq> None \<and> \<not> video_is_eof s \<and> dlt (video_time env s) (audio_time env s)")
    case True
    then obtain st where st: "video_st s = Some st" by auto
    have "loop_body env s =
        write_video_frame env st (flush s \<or> duration_reached env s) (update_flush env s)"
      using True False st by (auto simp: loop_body_def update_flush_eq Let_def)
    then show ?thesis using True False st video [of st] by blast
  next
    case F2: False
    have "\<not> loop_cond s"
      using False F2
      by (auto simp: loop_cond_def audio_time_def video_time_def dle_dlt split: if_splits)
    moreover have "loop_body env s = Inr (update_flush env s)"
      using False F2 by (auto simp: loop_body_def update_flush_eq Let_def)
    ultimately show ?thesis by (rule idle)
  qed
qed

lemma iterations_invariant:
  assumes "iterations env k s0 = Some s" and "I s0"
    and step: "\<And>s s'. I s \<Longrightarrow> loop_cond s \<Longrightarrow> loop_body env s = Inr s' \<Longrightarrow> I s'"
  shows "I s"
  using assms(1,2)
proof (induction k arbitrary: s0)
  case 0
  then show ?case by simp
next
  case (Suc k)
  from Suc.prems(1) obtain s1 where c: "loop_cond s0" and b: "loop_body env s0 = Inr s1"
    and r: "iterations env k s1 = Some s"
    by (auto split: if_splits sum.splits)
  from step [OF Suc.prems(2) c b] have "I s1" .
  with r show ?case by (rule Suc.IH)
qed

lemma sched_loop_invariant:
  assumes "sched_loop env n s0 = Some w" and "I s0"
    and step: "\<And>s s'. I s \<Longrightarrow> loop_cond s \<Longrightarrow> loop_body env s = Inr s' \<Longrightarrow> I s'"
  shows "(\<exists>s. w = Inr s \<and> I s \<and> \<not> loop_cond s)
       \<or> (\<exists>e s s'. w = Inl (e, s') \<and> I s \<and> loop_cond s \<and> loop_body env s = Inl (e, s'))"
  using assms(1,2)
proof (induction n arbitrary: s0)
  case 0
  then show ?case by (auto split: if_splits)
next
  case (Suc n)
  show ?case
  proof (cases "loop_cond s0")
    case False
    then show ?thesis using Suc.prems by auto
  next
    case True
    show ?thesis
    proof (cases "loop_body env s0")
      case (Inl es)
      obtain e s' where es: "es = (e, s')" by (cases es)
      have "w = Inl (e, s')" using True Inl es Suc.prems(1) by simp
      moreover have "loop_body env s0 = Inl (e, s')" using Inl es by simp
      ultimately show ?thesis using True Suc.prems(2) by blast
    next
      case (Inr s1)
      then have "sched_loop env n s1 = Some w" using True Suc.prems(1) by simp
      moreover have "I s1" using step [OF Suc.prems(2) True Inr] .
      ultimately show ?thesis by (rule Suc.IH)
    qed
  qed
qed

lemma main_cases:
  assumes "main env n = Some (e, s)"
  obtains (early) "main_setup env = Inl (e, s)"
  | (stopped) s0 where "main_setup env = Inr s0" and "sched_loop env n s0 = Some (Inl (e, s))"
  | (finished) s0 s1 where "main_setup env = Inr s0" and "sched_loop env n s0 = Some (Inr s1)"
      and "e = Return 0" and "s = main_finish env s1"
  using assms by (auto simp: main_def split: sum.splits option.splits)

lemma loop_body_flush:
  "flush (state_of (loop_body env s)) = (flush s \<or> duration_reached env s)"
proof (cases rule: loop_body_cases [of s env])
  case (audio st)
  then show ?thesis
    using write_audio_frame_stepped
      [of env st "flush s \<or> duration_reached env s" "update_flush env s"]
    by (simp add: audio_stepped_def update_flush_eq)
next
  case (video st)
  then show ?thesis
    using write_video_frame_stepped
      [of "flush s \<or> duration_reached env s" "update_flush env s" env st]
    by (simp add: video_stepped_def update_flush_eq)
next
  case idle
  then show ?thesis by (simp add: update_flush_eq)
qed

lemma iterations_snoc:
  "iterations env (Suc k) s0 =
     (case iterations env k s0 of
        None \<Rightarrow> None
      | Some s1 \<Rightarrow>
          if loop_cond s1 then (case loop_body env s1 of Inl e \<Rightarrow> None | Inr s \<Rightarrow> Some s)
          else None)"
proof (induction k arbitrary: s0)
  case 0
  show ?case by (simp split: sum.splits)
next
  case (Suc k)
  show ?case
  proof (cases "loop_cond s0")
    case False
    then show ?thesis by simp
  next
    case True
    show ?thesis
    proof (cases "loop_body env s0")
      case (Inl e)
      then show ?thesis using True by simp
    next
      case (Inr s1)
      have "iterations env (Suc (Suc k)) s0 = iterations env (Suc k) s1"
        using True Inr by simp
      also have "\<dots> = (case iterations env k s1 of
          None \<Rightarrow> None
        | Some s2 \<Rightarrow>
            if loop_cond s2 then (case loop_body env s2 of Inl e \<Rightarrow> None | Inr s \<Rightarrow> Some s)
            else None)"
        by (rule Suc.IH)
      also have "iterations env k s1 = iterations env (Suc k) s0"
        using True Inr by simp
      finally show ?thesis .
    qed
  qed
qed

lemma iterations_last:
  assumes "iterations env (Suc k) s0 = Some s"
  obtains s1 where "iterations env k s0 = Some s1" and "loop_cond s1"
    and "loop_body env s1 = Inr s"
  using assms
  by (auto simp: iterations_snoc simp del: iterations.simps
      split: option.splits if_splits sum.splits)

lemma iterations_step:
  assumes "iterations env k s0 = Some s1" and "loop_cond s1" and "\<not> isl (loop_body env s1)"
  shows "iterations env (Suc k) s0 = Some (state_of (loop_body env s1))"
proof -
  from assms(3) obtain s where "loop_body env s1 = Inr s" by (cases "loop_body env s1") auto
  then show ?thesis using assms(1,2) by (simp add: iterations_snoc del: iterations.simps)
qed

lemma sched_loop_iterations:
  "iterations env k s0 = Some s \<Longrightarrow> \<not> loop_cond s \<Longrightarrow> sched_loop env (k + m) s0 = Some (Inr s)"
proof (induction k arbitrary: s0)
  case 0
  then show ?case by (cases m) auto
next
  case (Suc k)
  from Suc.prems(1) obtain s1 where c: "loop_cond s0" and b: "loop_body env s0 = Inr s1"
    and r: "iterations env k s1 = Some s"
    by (auto split: if_splits sum.splits)
  from Suc.IH [OF r Suc.prems(2)] show ?case using c b by simp
qed

lemma sched_loop_fuel:
  "iterations env (Suc n) s0 = Some s \<Longrightarrow> sched_loop env n s0 = None"
proof (induction n arbitrary: s0)
  case 0
  then show ?case by (auto split: if_splits)
next
  case (Suc n)
  from Suc.prems obtain s1 where c: "loop_cond s0" and b: "loop_body env s0 = Inr s1"
    and r: "iterations env (Suc n) s1 = Some s"
    by (auto split: if_splits sum.splits)
  from Suc.IH [OF r] show ?case using c b by simp
qed

lemma not_isl_state_of: "\<not> isl w \<Longrightarrow> w = Inr (state_of w)"
  by (cases w) auto

lemma lib_quiet_snd:
  "c \<noteq> AvWriteTrailer \<Longrightarrow> c \<noteq> AvformatWriteHeader \<Longrightarrow> quiet s s1 \<Longrightarrow>
     quiet s (snd (lib env c s1))"
  using lib_quiet [of c s1 env] quiet_trans by blast

lemma close_video_quiet: "quiet s (close_video env s)"
  unfolding close_video_def Let_def
  by (intro lib_quiet_snd quiet_refl) simp_all

lemma close_audio_quiet: "quiet s (close_audio env s)"
proof -
  let ?s1 = "snd (lib env AvcodecClose s)"
  have q1: "quiet s ?s1" by (intro lib_quiet_snd quiet_refl) simp_all
  define s2 where "s2 = (if dst_samples_data ?s1 \<noteq> src_samples_data ?s1 then
                  snd (lib env (AvFree (dst_samples_data ?s1))
                    (snd (lib env (AvFree (plane0 ?s1 (dst_samples_data ?s1))) ?s1)))
                else ?s1)"
  have q2: "quiet s s2"
    unfolding s2_def using q1 by (auto intro!: lib_quiet_snd)
  have "quiet s (snd (lib env AvFrameFree
      (snd (lib env (AvFree (src_samples_data (snd (lib env (AvFree (plane0 s2 (src_samples_data s2))) s2))))
        (snd (lib env (AvFree (plane0 s2 (src_samples_data s2))) s2))))))"
    using q2 by (intro lib_quiet_snd) simp_all
  then show ?thesis
    unfolding close_audio_def Let_def s2_def .
qed

lemma main_finish_quiet:
  "quiet (s\<lparr>trace := trace s @ [Called AvWriteTrailer (status env (trace s) AvWriteTrailer)]\<rparr>)
     (main_finish env s)"
proof -
  let ?s1 = "s\<lparr>trace := trace s @ [Called AvWriteTrailer (status env (trace s) AvWriteTrailer)]\<rparr>"
  have s1: "snd (lib env AvWriteTrailer s) = ?s1" by (simp add: lib_def Let_def)
  define s2 where "s2 = (if video_st ?s1 \<noteq> None then close_video env ?s1 else ?s1)"
  have q2: "quiet ?s1 s2" unfolding s2_def using close_video_quiet by simp
  define s3 where "s3 = (if audio_st s2 \<noteq> None then close_audio env s2 else s2)"
  have q3: "quiet ?s1 s3"
    unfolding s3_def using q2 close_audio_quiet [of s2 env] by (auto intro: quiet_trans)
  define s4 where "s4 = (if \<not> nofile (the (fmt s3)) then snd (lib env AvioClose s3) else s3)"
  have q4: "quiet ?s1 s4"
    unfolding s4_def using q3 by (auto intro!: lib_quiet_snd)
  have "quiet ?s1 (snd (lib env AvformatFreeContext s4))"
    using q4 by (intro lib_quiet_snd) simp_all
  then show ?thesis
    unfolding main_finish_def Let_def s1 s4_def s3_def s2_def .
qed

lemma main_finish_effect:
  "audio_is_eof (main_finish env s) = audio_is_eof s
   \<and> video_is_eof (main_finish env s) = video_is_eof s
   \<and> frame_count (main_finish env s) = frame_count s
   \<and> video_pts (main_finish env s) = video_pts s
   \<and> audio_pts (main_finish env s) = audio_pts s
   \<and> fmt (main_finish env s) = fmt s
   \<and> audio_calls (trace (main_finish env s)) = audio_calls (trace s)
   \<and> video_calls (trace (main_finish env s)) = video_calls (trace s)
   \<and> header_calls (trace (main_finish env s)) = header_calls (trace s)
   \<and> encoder_lookups (trace (main_finish env s)) = encoder_lookups (trace s)
   \<and> trailer_calls (trace (main_finish env s)) =
       trailer_calls (trace s) @ [Called AvWriteTrailer (status env (trace s) AvWriteTrailer)]"
  using main_finish_quiet [of s env] by (simp add: quiet_def calls_defs)

section \<open>The run with the example engines\<close>

lemmas demo_defs =
  demo_start_def main_setup_def alloc_context_def add_streams_def add_stream_def
  open_streams_def open_video_def open_audio_def open_resampler_def write_header_def
  lib_def init_state_def demo_engines_def demo_stream_def demo_status_def demo_encode_audio_def
  demo_encode_video_def loop_cond_def loop_body_def update_flush_def duration_reached_def
  audio_time_def video_time_def av_q2d_def STREAM_DURATION_def write_audio_frame_def
  write_video_frame_def audio_input_def video_input_def convert_samples_def grow_dst_samples_def
  write_frame_def av_rescale_q_def av_rescale_rnd_up_def round_near_inf_def audio_running_time_def
  observe_def counters_def

text \<open>The run with the example engines, iteration by iteration.\<close>

lemma demo_setup:
  "isl (main_setup demo_engines) = False
   \<and> setup_view demo_start =
       (Some \<lparr>audio_codec = AV_CODEC_ID_MP3, video_codec = AV_CODEC_ID_MPEG4, nofile = False\<rparr>,
        False, False, [Called AvformatWriteHeader 0], [], [])"
  by (simp add: demo_defs setup_view_def calls_defs Let_def)

lemma demo_table:
  "snapshot demo_engines (demo_at 0) =
     ((Finite 0, Finite 0, False, False, False, False, True), (0, 0, 0, 0, 240000), False)
   \<and> snapshot demo_engines (demo_at 1) =
     ((Finite (15001 / 3000), Finite 0, False, False, False, False, True),
      (0, 0, 240016, 240016, 240016), False)
   \<and> snapshot demo_engines (demo_at 2) =
     ((Finite (15001 / 3000), Finite 0, False, False, False, False, True),
      (1, 0, 240016, 240016, 240016), False)
   \<and> snapshot demo_engines (demo_at 3) =
     ((Finite (15001 / 3000), Finite 5, True, False, False, False, True),
      (2, 1, 240016, 240016, 240016), False)
   \<and> snapshot demo_engines (demo_at 4) =
     ((Finite (15001 / 3000), Finite 10, True, True, False, False, True),
      (3, 2, 240016, 240016, 240016), False)
   \<and> snapshot demo_engines (demo_at 5) =
     ((INFINITY, Finite 10, True, True, True, False, True),
      (3, 2, 240016, 240016, 240016), False)
   \<and> snapshot demo_engines (demo_at 6) =
     ((INFINITY, INFINITY, True, True, True, True, False),
      (4, 3, 240016, 240016, 240016), False)"
  by (simp add: demo_defs snapshot_def Let_def eval_nat_numeral)

lemma demo_calls:
  "audio_calls (trace (demo_at 6)) =
     [EncodeAudio (Some (240016, 0))
        (GotPacket \<lparr>pts = 0, dts = 0, duration = 240016, stream_index = 0\<rparr>),
      EncodeAudio None NoPacket]
   \<and> video_calls (trace (demo_at 6)) =
     [EncodeVideo (Some 0) NoPacket,
      EncodeVideo (Some 1) (GotPacket \<lparr>pts = 0, dts = 0, duration = 1, stream_index = 0\<rparr>),
      EncodeVideo None (GotPacket \<lparr>pts = 1, dts = 1, duration = 1, stream_index = 0\<rparr>),
      EncodeVideo None NoPacket]"
  by (simp add: demo_defs calls_defs Let_def eval_nat_numeral)


lemma demo_facts:
  "snapshot demo_engines s = ((a, v, d, f, ae, ve, c), (fc, vp, sc, ap, mx), l) \<Longrightarrow>
     audio_time demo_engines s = a \<and> video_time demo_engines s = v
     \<and> duration_reached demo_engines s = d \<and> flush s = f
     \<and> audio_is_eof s = ae \<and> video_is_eof s = ve \<and> loop_cond s = c
     \<and> frame_count s = fc \<and> video_pts s = vp \<and> samples_count s = sc \<and> audio_pts s = ap
     \<and> max_dst_nb_samples s = mx \<and> isl (loop_body demo_engines s) = l"
  by (simp add: snapshot_def observe_def counters_def)

lemma demo_main_setup: "main_setup demo_engines = Inr demo_start"
  using demo_setup not_isl_state_of [of "main_setup demo_engines"]
  by (simp add: demo_start_def)

lemma demo_iterations:
  "iterations demo_engines 0 demo_start = Some (demo_at 0)"
  "iterations demo_engines 1 demo_start = Some (demo_at 1)"
  "iterations demo_engines 2 demo_start = Some (demo_at 2)"
  "iterations demo_engines 3 demo_start = Some (demo_at 3)"
  "iterations demo_engines 4 demo_start = Some (demo_at 4)"
  "iterations demo_engines 5 demo_start = Some (demo_at 5)"
  "iterations demo_engines 6 demo_start = Some (demo_at 6)"
proof -
  note t = demo_table [THEN conjunct1, THEN demo_facts]
    demo_table [THEN conjunct2, THEN conjunct1, THEN demo_facts]
    demo_table [THEN conjunct2, THEN conjunct2, THEN conjunct1, THEN demo_facts]
    demo_table [THEN conjunct2, THEN conjunct2, THEN conjunct2, THEN conjunct1, THEN demo_facts]
    demo_table [THEN conjunct2, THEN conjunct2, THEN conjunct2, THEN conjunct2, THEN conjunct1,
      THEN demo_facts]
    demo_table [THEN conjunct2, THEN conjunct2, THEN conjunct2, THEN conjunct2, THEN conjunct2,
      THEN conjunct1, THEN demo_facts]
  have next_it: "iterations demo_engines (Suc k) demo_start = Some (demo_at (Suc k))"
    if "iterations demo_engines k demo_start = Some (demo_at k)" and "loop_cond (demo_at k)"
      and "\<not> isl (loop_body demo_engines (demo_at k))" for k
    using iterations_step [OF that] by (simp del: iterations.simps)
  show i0: "iterations demo_engines 0 demo_start = Some (demo_at 0)" by simp
  from next_it [OF i0] t(1)
  show i1: "iterations demo_engines 1 demo_start = Some (demo_at 1)"
    by (simp add: eval_nat_numeral del: iterations.simps demo_at.simps)
  from next_it [OF i1] t(2)
  show i2: "iterations demo_engines 2 demo_start = Some (demo_at 2)"
    by (simp add: eval_nat_numeral del: iterations.simps demo_at.simps)
  from next_it [OF i2] t(3)
  show i3: "iterations demo_engines 3 demo_start = Some (demo_at 3)"
    by (simp add: eval_nat_numeral del: iterations.simps demo_at.simps)
  from next_it [OF i3] t(4)
  show i4: "iterations demo_engines 4 demo_start = Some (demo_at 4)"
    by (simp add: eval_nat_numeral del: iterations.simps demo_at.simps)
  from next_it [OF i4] t(5)
  show i5: "iterations demo_engines 5 demo_start = Some (demo_at 5)"
    by (simp add: eval_nat_numeral del: iterations.simps demo_at.simps)
  from next_it [OF i5] t(6)
  show "iterations demo_engines 6 demo_start = Some (demo_at 6)"
    by (simp add: eval_nat_numeral del: iterations.simps demo_at.simps)
qed

lemma demo_main:
  "main demo_engines 6 = Some (Return 0, main_finish demo_engines (demo_at 6))"
  "main demo_engines 5 = None"
proof -
  have c6: "\<not> loop_cond (demo_at 6)"
    using demo_table by (simp add: snapshot_def observe_def)
  from sched_loop_iterations [OF demo_iterations(7) c6, of 0]
  show "main demo_engines 6 = Some (Return 0, main_finish demo_engines (demo_at 6))"
    by (simp add: main_def demo_main_setup)
  from sched_loop_fuel [of demo_engines 5 demo_start] demo_iterations(7)
  show "main demo_engines 5 = None"
    by (simp add: main_def demo_main_setup eval_nat_numeral del: iterations.simps sched_loop.simps)
qed

section \<open>The claims about the scheduler\<close>

lemma audio_branch_calls:
  assumes "loop_body env s = write_audio_frame env st fl (update_flush env s)"
  shows "video_calls (trace (state_of (loop_body env s))) = video_calls (trace s)"
  using write_audio_frame_stepped [of env st fl "update_flush env s"] assms
  by (simp add: audio_stepped_def update_flush_eq)

lemma video_branch_calls:
  assumes "loop_body env s = write_video_frame env st fl (update_flush env s)"
  shows "audio_calls (trace (state_of (loop_body env s))) = audio_calls (trace s)"
  using write_video_frame_stepped [of fl "update_flush env s" env st] assms
  by (simp add: video_stepped_def update_flush_eq)

text \<open>
  Claim C1. In an iteration of the loop that starts with both streams active, the audio
  pipeline is the one advanced when the audio time is at most the video time, and the video
  pipeline when the video time is less than the audio time; exactly one of the two holds.
  On a tie the audio pipeline is advanced. The video encoder is called in the iteration only
  when the video time is less, the audio encoder only when the audio time is at most the
  video time.
\<close>

theorem scheduler_choice:
  assumes "audio_st s \<noteq> None" and "\<not> audio_is_eof s"
    and "video_st s \<noteq> None" and "\<not> video_is_eof s"
  shows "audio_time env s =
           Finite (fmul env (audio_pts s) (av_q2d env (time_base (the (audio_st s)))))
       \<and> video_time env s =
           Finite (fmul env (video_pts s) (av_q2d env (time_base (the (video_st s)))))
       \<and> dle (audio_time env s) (video_time env s) = (\<not> dlt (video_time env s) (audio_time env s))
       \<and> (dle (audio_time env s) (video_time env s) \<longrightarrow>
            loop_body env s =
              write_audio_frame env (the (audio_st s)) (flush (update_flush env s))
                (update_flush env s)
            \<and> video_calls (trace (state_of (loop_body env s))) = video_calls (trace s))
       \<and> (dlt (video_time env s) (audio_time env s) \<longrightarrow>
            loop_body env s =
              write_video_frame env (the (video_st s)) (flush (update_flush env s))
                (update_flush env s)
            \<and> audio_calls (trace (state_of (loop_body env s))) = audio_calls (trace s))
       \<and> (audio_time env s = video_time env s \<longrightarrow>
            loop_body env s =
              write_audio_frame env (the (audio_st s)) (flush (update_flush env s))
                (update_flush env s))"
proof -
  let ?a = "audio_time env s" and ?v = "video_time env s"
  have fin: "?a = Finite (fmul env (audio_pts s) (av_q2d env (time_base (the (audio_st s)))))"
    "?v = Finite (fmul env (video_pts s) (av_q2d env (time_base (the (video_st s)))))"
    using assms by (simp_all add: audio_time_def video_time_def)
  have tot: "dle ?a ?v = (\<not> dlt ?v ?a)" by (simp add: dle_dlt)
  have a: "loop_body env s =
      write_audio_frame env (the (audio_st s)) (flush (update_flush env s)) (update_flush env s)"
    if "dle ?a ?v"
    using that assms by (simp add: loop_body_def update_flush_eq Let_def)
  have v: "loop_body env s =
      write_video_frame env (the (video_st s)) (flush (update_flush env s)) (update_flush env s)"
    if "dlt ?v ?a"
    using that assms tot by (simp add: loop_body_def update_flush_eq Let_def)
  have tie: "dle ?a ?v" if "?a = ?v"
    using that fin by simp
  show ?thesis
    using fin tot a v tie audio_branch_calls [OF a] video_branch_calls [OF v] by blast
qed


theorem scheduler_choice_witness:
  "audio_st demo_start \<noteq> None \<and> \<not> audio_is_eof demo_start
   \<and> video_st demo_start \<noteq> None \<and> \<not> video_is_eof demo_start
   \<and> audio_time demo_engines demo_start = Finite 0
   \<and> video_time demo_engines demo_start = Finite 0
   \<and> dle (audio_time demo_engines demo_start) (video_time demo_engines demo_start)
   \<and> loop_body demo_engines demo_start =
        write_audio_frame demo_engines (the (audio_st demo_start))
          (flush (update_flush demo_engines demo_start)) (update_flush demo_engines demo_start)
   \<and> video_calls (trace (state_of (loop_body demo_engines demo_start))) =
        video_calls (trace demo_start)"
proof -
  have st: "audio_st demo_start \<noteq> None" "video_st demo_start \<noteq> None"
    using demo_setup by (simp_all add: setup_view_def)
  have t0: "\<not> audio_is_eof demo_start" "\<not> video_is_eof demo_start"
    "audio_time demo_engines demo_start = Finite 0"
    "video_time demo_engines demo_start = Finite 0"
    using demo_table [THEN conjunct1, THEN demo_facts] by simp_all
  then have le: "dle (audio_time demo_engines demo_start) (video_time demo_engines demo_start)"
    by simp
  from scheduler_choice [OF st(1) t0(1) st(2) t0(2), of demo_engines] le
  have "loop_body demo_engines demo_start =
        write_audio_frame demo_engines (the (audio_st demo_start))
          (flush (update_flush demo_engines demo_start)) (update_flush demo_engines demo_start)
      \<and> video_calls (trace (state_of (loop_body demo_engines demo_start))) =
        video_calls (trace demo_start)"
    by blast
  then show ?thesis using st t0 le by blast
qed

lemma duration_reached_active:
  "duration_reached env s =
     ((audio_st s \<noteq> None \<and> \<not> audio_is_eof s \<longrightarrow>
         STREAM_DURATION \<le> fmul env (audio_pts s) (av_q2d env (time_base (the (audio_st s)))))
      \<and> (video_st s \<noteq> None \<and> \<not> video_is_eof s \<longrightarrow>
         STREAM_DURATION \<le> fmul env (video_pts s) (av_q2d env (time_base (the (video_st s))))))"
  by (auto simp: duration_reached_def audio_time_def video_time_def)

lemma flush_after_iterations:
  "iterations env k s0 = Some s \<Longrightarrow>
     flush s = (flush s0 \<or> (\<exists>j<k. \<exists>sj. iterations env j s0 = Some sj \<and> duration_reached env sj))"
proof (induction k arbitrary: s)
  case 0
  then show ?case by simp
next
  case (Suc k)
  from Suc.prems obtain s1 where s1: "iterations env k s0 = Some s1"
    and b: "loop_body env s1 = Inr s"
    by (rule iterations_last)
  have "flush s = (flush s1 \<or> duration_reached env s1)"
    using loop_body_flush [of env s1] b by simp
  also have "flush s1 = (flush s0 \<or> (\<exists>j<k. \<exists>sj. iterations env j s0 = Some sj \<and> duration_reached env sj))"
    using s1 by (rule Suc.IH)
  finally show ?case
    using s1 by (auto simp: less_Suc_eq simp del: iterations.simps)
qed

text \<open>
  Claim C2. After \<open>k\<close> iterations of the loop \<open>flush\<close> is set exactly when it was set at the
  start or some earlier iteration began with every still active stream at or beyond the
  five seconds; that iteration sets the flag before its pipeline step. Once set the flag
  stays set.
\<close>

theorem flush_monotone:
  assumes "iterations env k s0 = Some s"
  shows "flush s =
           (flush s0 \<or> (\<exists>j<k. \<exists>sj. iterations env j s0 = Some sj \<and> duration_reached env sj))
       \<and> (\<forall>j sj. j \<le> k \<and> iterations env j s0 = Some sj \<and> flush sj \<longrightarrow> flush s)
       \<and> flush (update_flush env s) = (flush s \<or> duration_reached env s)
       \<and> flush (state_of (loop_body env s)) = (flush s \<or> duration_reached env s)
       \<and> duration_reached env s =
           ((audio_st s \<noteq> None \<and> \<not> audio_is_eof s \<longrightarrow>
               STREAM_DURATION \<le>
                 fmul env (audio_pts s) (av_q2d env (time_base (the (audio_st s)))))
            \<and> (video_st s \<noteq> None \<and> \<not> video_is_eof s \<longrightarrow>
               STREAM_DURATION \<le>
                 fmul env (video_pts s) (av_q2d env (time_base (the (video_st s))))))
       \<and> STREAM_DURATION = 5"
proof -
  have 1: "flush s =
      (flush s0 \<or> (\<exists>j<k. \<exists>sj. iterations env j s0 = Some sj \<and> duration_reached env sj))"
    using assms by (rule flush_after_iterations)
  have 2: "flush s" if "j \<le> k" and "iterations env j s0 = Some sj" and "flush sj" for j sj
  proof -
    from flush_after_iterations [OF that(2)] that(3)
    have "flush s0 \<or> (\<exists>i<j. \<exists>si. iterations env i s0 = Some si \<and> duration_reached env si)"
      by simp
    then show ?thesis using 1 that(1) by (meson less_le_trans)
  qed
  have 3: "flush (update_flush env s) = (flush s \<or> duration_reached env s)"
    by (simp add: update_flush_eq)
  show ?thesis
    using 1 2 3 loop_body_flush [of env s] duration_reached_active [of env s]
    by (simp only: STREAM_DURATION_def) blast
qed

theorem flush_monotone_witness:
  "iterations demo_engines 4 demo_start = Some (demo_at 4)
   \<and> iterations demo_engines 3 demo_start = Some (demo_at 3)
   \<and> \<not> flush demo_start
   \<and> \<not> duration_reached demo_engines (demo_at 0)
   \<and> \<not> duration_reached demo_engines (demo_at 1)
   \<and> \<not> duration_reached demo_engines (demo_at 2)
   \<and> duration_reached demo_engines (demo_at 3)
   \<and> \<not> flush (demo_at 3)
   \<and> flush (update_flush demo_engines (demo_at 3))
   \<and> flush (demo_at 4)
   \<and> flush (demo_at 6)"
proof -
  note t0 = demo_table [THEN conjunct1, THEN demo_facts]
  note t1 = demo_table [THEN conjunct2, THEN conjunct1, THEN demo_facts]
  note t2 = demo_table [THEN conjunct2, THEN conjunct2, THEN conjunct1, THEN demo_facts]
  note t3 = demo_table [THEN conjunct2, THEN conjunct2, THEN conjunct2, THEN conjunct1,
      THEN demo_facts]
  have d: "\<not> flush demo_start" "\<not> duration_reached demo_engines (demo_at 0)"
    "\<not> duration_reached demo_engines (demo_at 1)" "\<not> duration_reached demo_engines (demo_at 2)"
    "duration_reached demo_engines (demo_at 3)" "\<not> flush (demo_at 3)"
    using t0 t1 t2 t3 by simp_all
  have ex: "\<exists>j<k. \<exists>sj. iterations demo_engines j demo_start = Some sj
          \<and> duration_reached demo_engines sj" if "3 < k" for k
    using that d(5) demo_iterations(4) by blast
  from flush_monotone [OF demo_iterations(5)] ex [of 4]
  have f4: "flush (demo_at 4)" by simp
  from flush_monotone [OF demo_iterations(7)] ex [of 6]
  have f6: "flush (demo_at 6)" by simp
  from flush_monotone [OF demo_iterations(4)] d(5)
  have f3: "flush (update_flush demo_engines (demo_at 3))" by blast
  show ?thesis using d f3 f4 f6 demo_iterations(4,5) by blast
qed

section \<open>The end of a stream\<close>

lemma eof_once_snoc:
  assumes "eof_once drain False calls"
  shows "eof_once drain (ev = drain) (calls @ [ev])"
  using assms by (auto simp: eof_once_def)

lemma audio_stepped_cases:
  assumes "audio_stepped env st fl s w"
  obtains (same) "audio_calls (trace (state_of w)) = audio_calls (trace s)"
      and "audio_is_eof (state_of w) = audio_is_eof s"
  | (called) frame r where "(frame = None) = fl"
      and "audio_calls (trace (state_of w)) = audio_calls (trace s) @ [EncodeAudio frame r]"
      and "audio_is_eof (state_of w) = (audio_is_eof s \<or> fl \<and> r = NoPacket)"
  using assms unfolding audio_stepped_def by blast

lemma video_stepped_cases:
  assumes "video_stepped fl s w"
  obtains (same) "video_calls (trace (state_of w)) = video_calls (trace s)"
      and "video_is_eof (state_of w) = video_is_eof s"
  | (called) r where
      "video_calls (trace (state_of w)) =
         video_calls (trace s) @ [EncodeVideo (if fl then None else Some (frame_count s)) r]"
      and "video_is_eof (state_of w) = (video_is_eof s \<or> fl \<and> r = NoPacket)"
  using assms unfolding video_stepped_def by blast

lemma update_flush_fields [simp]:
  "audio_is_eof (update_flush env s) = audio_is_eof s"
  "video_is_eof (update_flush env s) = video_is_eof s"
  "frame_count (update_flush env s) = frame_count s"
  "video_pts (update_flush env s) = video_pts s"
  "audio_pts (update_flush env s) = audio_pts s"
  "fmt (update_flush env s) = fmt s"
  "audio_st (update_flush env s) = audio_st s"
  "video_st (update_flush env s) = video_st s"
  "trace (update_flush env s) = trace s"
  by (simp_all add: update_flush_eq)

lemma eof_step:
  assumes a: "eof_once (EncodeAudio None NoPacket) (audio_is_eof s) (audio_calls (trace s))"
    and v: "eof_once (EncodeVideo None NoPacket) (video_is_eof s) (video_calls (trace s))"
  shows "eof_once (EncodeAudio None NoPacket) (audio_is_eof (state_of (loop_body env s)))
           (audio_calls (trace (state_of (loop_body env s))))
       \<and> eof_once (EncodeVideo None NoPacket) (video_is_eof (state_of (loop_body env s)))
           (video_calls (trace (state_of (loop_body env s))))"
proof (cases rule: loop_body_cases [of s env])
  case (audio st)
  let ?fl = "flush s \<or> duration_reached env s"
  from write_audio_frame_stepped [of env st ?fl "update_flush env s"] audio(4)
  have st: "audio_stepped env st ?fl (update_flush env s) (loop_body env s)" by simp
  have a0: "eof_once (EncodeAudio None NoPacket) False (audio_calls (trace s))"
    using a audio(2) by simp
  from st have vs: "video_is_eof (state_of (loop_body env s)) = video_is_eof s"
    "video_calls (trace (state_of (loop_body env s))) = video_calls (trace s)"
    by (simp_all add: audio_stepped_def)
  from st have "eof_once (EncodeAudio None NoPacket) (audio_is_eof (state_of (loop_body env s)))
           (audio_calls (trace (state_of (loop_body env s))))"
  proof (cases rule: audio_stepped_cases)
    case same
    then show ?thesis using a by simp
  next
    case (called frame r)
    define ev where "ev = EncodeAudio frame r"
    have c1: "audio_calls (trace (state_of (loop_body env s))) = audio_calls (trace s) @ [ev]"
      using called(2) by (simp add: ev_def)
    have c2: "audio_is_eof (state_of (loop_body env s)) = (ev = EncodeAudio None NoPacket)"
      using called(1,3) audio(2) by (auto simp: ev_def)
    from eof_once_snoc [OF a0, of ev] show ?thesis
      unfolding c1 c2 .
  qed
  then show ?thesis using vs v by simp
next
  case (video st)
  let ?fl = "flush s \<or> duration_reached env s"
  from write_video_frame_stepped [of ?fl "update_flush env s" env st] video(5)
  have st: "video_stepped ?fl (update_flush env s) (loop_body env s)" by simp
  have v0: "eof_once (EncodeVideo None NoPacket) False (video_calls (trace s))"
    using v video(2) by simp
  from st have as: "audio_is_eof (state_of (loop_body env s)) = audio_is_eof s"
    "audio_calls (trace (state_of (loop_body env s))) = audio_calls (trace s)"
    by (simp_all add: video_stepped_def)
  from st have "eof_once (EncodeVideo None NoPacket) (video_is_eof (state_of (loop_body env s)))
           (video_calls (trace (state_of (loop_body env s))))"
  proof (cases rule: video_stepped_cases)
    case same
    then show ?thesis using v by simp
  next
    case (called r)
    define ev where "ev = EncodeVideo (if ?fl then None else Some (frame_count s)) r"
    have c1: "video_calls (trace (state_of (loop_body env s))) = video_calls (trace s) @ [ev]"
      using called(1) by (simp add: ev_def)
    have c2: "video_is_eof (state_of (loop_body env s)) = (ev = EncodeVideo None NoPacket)"
      using called(2) video(2) by (auto simp: ev_def)
    from eof_once_snoc [OF v0, of ev] show ?thesis
      unfolding c1 c2 .
  qed
  then show ?thesis using as a by simp
next
  case idle
  then show ?thesis using a v by (simp add: update_flush_eq)
qed


lemma setup_done_facts:
  assumes "setup_done s"
  shows "\<not> audio_is_eof s" and "\<not> video_is_eof s" and "audio_pts s = 0" and "video_pts s = 0"
    and "\<not> flush s" and "frame_count s = 0" and "audio_st s \<noteq> None" and "video_st s \<noteq> None"
    and "audio_calls (trace s) = []" and "video_calls (trace s) = []"
    and "trailer_calls (trace s) = []"
    and "\<exists>r\<ge>0. header_calls (trace s) = [Called AvformatWriteHeader r]"
    and "\<exists>f. fmt s = Some f \<and> audio_codec f = AV_CODEC_ID_MP3 \<and> video_codec f = AV_CODEC_ID_MPEG4"
    and "list_all asserted_lookup (encoder_lookups (trace s))"
proof -
  from assms obtain f vs as evs r where
    q: "quiet (init_state\<lparr>fmt := Some f, video_st := Some vs, audio_st := Some as,
                 trace := evs @ [Called AvformatWriteHeader r]\<rparr>) s"
    and r: "0 \<le> r" and l: "list_all asserted_lookup evs"
    and c: "audio_codec f = AV_CODEC_ID_MP3" "video_codec f = AV_CODEC_ID_MPEG4"
    unfolding setup_done_def by blast
  have keys: "filter is_audio_call evs = []" "filter is_video_call evs = []"
    "filter is_trailer evs = []" "filter is_header evs = []" "filter is_find_encoder evs = evs"
    using l by (induction evs; auto elim: asserted_lookup.elims)+
  show "\<not> audio_is_eof s" "\<not> video_is_eof s" "audio_pts s = 0" "video_pts s = 0"
    "\<not> flush s" "frame_count s = 0" "audio_st s \<noteq> None" "video_st s \<noteq> None"
    using q by (simp_all add: quiet_def init_state_def)
  show "audio_calls (trace s) = []" "video_calls (trace s) = []" "trailer_calls (trace s) = []"
    using q keys by (simp_all add: quiet_def calls_defs)
  show "\<exists>r\<ge>0. header_calls (trace s) = [Called AvformatWriteHeader r]"
    using q keys r by (simp add: quiet_def calls_defs)
  show "\<exists>f. fmt s = Some f \<and> audio_codec f = AV_CODEC_ID_MP3 \<and> video_codec f = AV_CODEC_ID_MPEG4"
    using q c by (simp add: quiet_def)
  show "list_all asserted_lookup (encoder_lookups (trace s))"
    using q keys l by (simp add: quiet_def calls_defs)
qed

lemma setup_stopped_facts:
  assumes "setup_stopped e s"
  shows "\<not> audio_is_eof s" and "\<not> video_is_eof s" and "video_pts s = 0" and "frame_count s = 0"
    and "audio_calls (trace s) = []" and "video_calls (trace s) = []"
    and "trailer_calls (trace s) = []"
    and "list_all asserted_lookup (encoder_lookups (trace s))"
    and "fmt s = None \<Longrightarrow> e = Return 1 \<and> encoder_lookups (trace s) = []"
    and "\<And>f. fmt s = Some f \<Longrightarrow>
           (if audio_codec f = AV_CODEC_ID_MP3 \<and> video_codec f = AV_CODEC_ID_MPEG4
            then e = Exit 1 \<or> e = Return 1
            else e = Abort \<and> encoder_lookups (trace s) = [])"
proof -
  from assms obtain ft vs as evs where
    q: "quiet (init_state\<lparr>fmt := ft, video_st := vs, audio_st := as, trace := evs\<rparr>) s"
    and l: "list_all (\<lambda>ev. asserted_lookup ev \<or> is_header ev) evs"
    and c: "case ft of
              None \<Rightarrow> e = Return 1 \<and> evs = []
            | Some f \<Rightarrow>
                if audio_codec f = AV_CODEC_ID_MP3 \<and> video_codec f = AV_CODEC_ID_MPEG4
                then e = Exit 1 \<or> e = Return 1
                else e = Abort \<and> evs = []"
    unfolding setup_stopped_def by blast
  have keys: "filter is_audio_call evs = []" "filter is_video_call evs = []"
    "filter is_trailer evs = []" "list_all asserted_lookup (filter is_find_encoder evs)"
    using l by (induction evs; auto elim: asserted_lookup.elims is_header.elims)+
  show "\<not> audio_is_eof s" "\<not> video_is_eof s" "video_pts s = 0" "frame_count s = 0"
    using q by (simp_all add: quiet_def init_state_def)
  show "audio_calls (trace s) = []" "video_calls (trace s) = []" "trailer_calls (trace s) = []"
    using q keys by (simp_all add: quiet_def calls_defs)
  show "list_all asserted_lookup (encoder_lookups (trace s))"
    using q keys by (simp add: quiet_def calls_defs)
  show "e = Return 1 \<and> encoder_lookups (trace s) = []" if "fmt s = None"
    using q c that by (auto simp: quiet_def calls_defs split: option.splits)
  show "if audio_codec f = AV_CODEC_ID_MP3 \<and> video_codec f = AV_CODEC_ID_MPEG4
        then e = Exit 1 \<or> e = Return 1
        else e = Abort \<and> encoder_lookups (trace s) = []" if "fmt s = Some f" for f
    using q c that by (auto simp: quiet_def calls_defs split: option.splits if_splits)
qed

lemma main_setup_done: "main_setup env = Inr s \<Longrightarrow> setup_done s"
  using main_setup_effect [of env] by simp

lemma main_setup_stopped: "main_setup env = Inl (e, s) \<Longrightarrow> setup_stopped e s"
  using main_setup_effect [of env] by simp

lemma eof_once_start:
  "\<not> eof \<Longrightarrow> eof_once drain eof []"
  by (simp add: eof_once_def)

lemma eof_at_iterations:
  assumes "main_setup env = Inr s0" and "iterations env k s0 = Some s"
  shows "eof_once (EncodeAudio None NoPacket) (audio_is_eof s) (audio_calls (trace s))
       \<and> eof_once (EncodeVideo None NoPacket) (video_is_eof s) (video_calls (trace s))"
proof (rule iterations_invariant [OF assms(2)])
  from setup_done_facts [OF main_setup_done [OF assms(1)]]
  show "eof_once (EncodeAudio None NoPacket) (audio_is_eof s0) (audio_calls (trace s0))
       \<and> eof_once (EncodeVideo None NoPacket) (video_is_eof s0) (video_calls (trace s0))"
    by (simp add: eof_once_def)
next
  fix s s'
  assume "eof_once (EncodeAudio None NoPacket) (audio_is_eof s) (audio_calls (trace s))
       \<and> eof_once (EncodeVideo None NoPacket) (video_is_eof s) (video_calls (trace s))"
    and "loop_body env s = Inr s'"
  then show "eof_once (EncodeAudio None NoPacket) (audio_is_eof s') (audio_calls (trace s'))
       \<and> eof_once (EncodeVideo None NoPacket) (video_is_eof s') (video_calls (trace s'))"
    using eof_step [of s env] by simp
qed

lemma sched_loop_end:
  assumes "sched_loop env n s0 = Some w" and "I s0"
    and "\<forall>s1. I s1 \<longrightarrow> I (state_of (loop_body env s1))"
  shows "case w of
           Inr s \<Rightarrow> I s \<and> \<not> loop_cond s
         | Inl (e, s) \<Rightarrow> \<exists>s1. I s1 \<and> loop_cond s1 \<and> loop_body env s1 = Inl (e, s)"
proof -
  have "(\<exists>s. w = Inr s \<and> I s \<and> \<not> loop_cond s)
       \<or> (\<exists>e s s'. w = Inl (e, s') \<and> I s \<and> loop_cond s \<and> loop_body env s = Inl (e, s'))"
    using assms(1,2)
  proof (rule sched_loop_invariant)
    fix s s'
    assume "I s" and "loop_body env s = Inr s'"
    then show "I s'" using assms(3) by (metis state_of.simps(2))
  qed
  then show ?thesis by auto
qed

lemma main_run_cases:
  assumes "main env n = Some (e, s)"
    and init: "\<And>s0. main_setup env = Inr s0 \<Longrightarrow> I s0"
    and step: "\<And>s1. I s1 \<Longrightarrow> I (state_of (loop_body env s1))"
  obtains (early) "main_setup env = Inl (e, s)"
  | (stopped) s1 where "I s1" and "loop_cond s1" and "loop_body env s1 = Inl (e, s)"
  | (finished) s1 where "I s1" and "\<not> loop_cond s1" and "e = Return 0"
      and "s = main_finish env s1"
  using assms(1)
proof (cases rule: main_cases)
  case early
  then show ?thesis using that(1) by blast
next
  case (stopped s0)
  have I0: "I s0" using init stopped(1) by blast
  have st: "\<forall>s1. I s1 \<longrightarrow> I (state_of (loop_body env s1))" using step by blast
  from sched_loop_end [OF stopped(2) I0 st]
  obtain s1 where "I s1" and "loop_cond s1" and "loop_body env s1 = Inl (e, s)" by auto
  then show ?thesis using that(2) by blast
next
  case (finished s0 s1)
  have I0: "I s0" using init finished(1) by blast
  have st: "\<forall>s1. I s1 \<longrightarrow> I (state_of (loop_body env s1))" using step by blast
  from sched_loop_end [OF finished(2) I0 st]
  have "I s1" and "\<not> loop_cond s1" by auto
  then show ?thesis using that(3) finished(3,4) by blast
qed

lemma eof_at_exit:
  assumes "main env n = Some (e, s)"
  shows "eof_once (EncodeAudio None NoPacket) (audio_is_eof s) (audio_calls (trace s))
       \<and> eof_once (EncodeVideo None NoPacket) (video_is_eof s) (video_calls (trace s))"
proof -
  let ?I = "\<lambda>s::state. eof_once (EncodeAudio None NoPacket) (audio_is_eof s) (audio_calls (trace s))
       \<and> eof_once (EncodeVideo None NoPacket) (video_is_eof s) (video_calls (trace s))"
  have init: "?I s0" if "main_setup env = Inr s0" for s0
    using setup_done_facts [OF main_setup_done [OF that]] by (simp add: eof_once_def)
  have step: "?I (state_of (loop_body env s1))" if "?I s1" for s1
    using eof_step [of s1 env] that by simp
  show ?thesis
  proof (rule main_run_cases [where I = ?I, OF assms])
    fix s0 assume "main_setup env = Inr s0"
    then show "?I s0" by (rule init)
  next
    fix s1 assume "?I s1"
    then show "?I (state_of (loop_body env s1))" by (rule step)
  next
    assume "main_setup env = Inl (e, s)"
    from setup_stopped_facts [OF main_setup_stopped [OF this]]
    show ?thesis by (simp add: eof_once_def)
  next
    fix s1 assume "?I s1" and "loop_body env s1 = Inl (e, s)"
    then show ?thesis using step [of s1] by simp
  next
    fix s1 assume "?I s1" and "s = main_finish env s1"
    then show ?thesis using main_finish_effect [of env s1] by simp
  qed
qed

lemma eof_stream_idle:
  "audio_is_eof s \<Longrightarrow>
     audio_calls (trace (state_of (loop_body env s))) = audio_calls (trace s)"
  "video_is_eof s \<Longrightarrow>
     video_calls (trace (state_of (loop_body env s))) = video_calls (trace s)"
proof -
  show "audio_calls (trace (state_of (loop_body env s))) = audio_calls (trace s)"
    if "audio_is_eof s"
  proof (cases rule: loop_body_cases [of s env])
    case (audio st)
    then show ?thesis using that by simp
  next
    case (video st)
    then show ?thesis
      using write_video_frame_stepped
        [of "flush s \<or> duration_reached env s" "update_flush env s" env st]
      by (simp add: video_stepped_def)
  next
    case idle
    then show ?thesis by simp
  qed
  show "video_calls (trace (state_of (loop_body env s))) = video_calls (trace s)"
    if "video_is_eof s"
  proof (cases rule: loop_body_cases [of s env])
    case (audio st)
    then show ?thesis
      using write_audio_frame_stepped
        [of env st "flush s \<or> duration_reached env s" "update_flush env s"]
      by (simp add: audio_stepped_def)
  next
    case (video st)
    then show ?thesis using that by simp
  next
    case idle
    then show ?thesis by simp
  qed
qed

text \<open>
  Claim C3. In every state that a run of \<^verbatim>\<open>main\<close> reaches in its loop, and in the state in
  which the run ends, the end-of-stream flag of a stream is set exactly when its encoder has
  answered a flush call with no packet; that call is then the only such call and the last
  call of this encoder in the history. An iteration that starts with the flag set does not
  call the encoder of the stream.
\<close>

theorem eof_set_once:
  "(main_setup env = Inr s0 \<and> iterations env k s0 = Some s \<longrightarrow>
      eof_once (EncodeAudio None NoPacket) (audio_is_eof s) (audio_calls (trace s))
      \<and> eof_once (EncodeVideo None NoPacket) (video_is_eof s) (video_calls (trace s))
      \<and> (audio_is_eof s \<longrightarrow>
            audio_calls (trace (state_of (loop_body env s))) = audio_calls (trace s))
      \<and> (video_is_eof s \<longrightarrow>
            video_calls (trace (state_of (loop_body env s))) = video_calls (trace s)))
   \<and> (main env n = Some (e, s) \<longrightarrow>
      eof_once (EncodeAudio None NoPacket) (audio_is_eof s) (audio_calls (trace s))
      \<and> eof_once (EncodeVideo None NoPacket) (video_is_eof s) (video_calls (trace s)))"
  using eof_at_iterations [of env s0 k s] eof_at_exit [of env n e s]
    eof_stream_idle [of s env]
  by blast

theorem eof_set_once_witness:
  "main_setup demo_engines = Inr demo_start
   \<and> iterations demo_engines 6 demo_start = Some (demo_at 6)
   \<and> audio_is_eof (demo_at 6) \<and> video_is_eof (demo_at 6)
   \<and> audio_calls (trace (demo_at 6)) =
       [EncodeAudio (Some (240016, 0))
          (GotPacket \<lparr>pts = 0, dts = 0, duration = 240016, stream_index = 0\<rparr>),
        EncodeAudio None NoPacket]
   \<and> video_calls (trace (demo_at 6)) =
       [EncodeVideo (Some 0) NoPacket,
        EncodeVideo (Some 1) (GotPacket \<lparr>pts = 0, dts = 0, duration = 1, stream_index = 0\<rparr>),
        EncodeVideo None (GotPacket \<lparr>pts = 1, dts = 1, duration = 1, stream_index = 0\<rparr>),
        EncodeVideo None NoPacket]
   \<and> eof_once (EncodeAudio None NoPacket) True (audio_calls (trace (demo_at 6)))
   \<and> eof_once (EncodeVideo None NoPacket) True (video_calls (trace (demo_at 6)))
   \<and> iterations demo_engines 4 demo_start = Some (demo_at 4)
   \<and> \<not> audio_is_eof (demo_at 4)
   \<and> eof_once (EncodeAudio None NoPacket) False (audio_calls (trace (demo_at 4)))
   \<and> main demo_engines 6 = Some (Return 0, main_finish demo_engines (demo_at 6))
   \<and> eof_once (EncodeAudio None NoPacket) True
        (audio_calls (trace (main_finish demo_engines (demo_at 6))))"
proof -
  note t4 = demo_table [THEN conjunct2, THEN conjunct2, THEN conjunct2, THEN conjunct2,
      THEN conjunct1, THEN demo_facts]
  note t6 = demo_table [THEN conjunct2, THEN conjunct2, THEN conjunct2, THEN conjunct2,
      THEN conjunct2, THEN conjunct2, THEN demo_facts]
  have e6: "audio_is_eof (demo_at 6)" "video_is_eof (demo_at 6)" using t6 by simp_all
  have e4: "\<not> audio_is_eof (demo_at 4)" using t4 by simp
  from eof_set_once [of demo_engines demo_start 6 "demo_at 6"] demo_main_setup demo_iterations(7) e6
  have a6: "eof_once (EncodeAudio None NoPacket) True (audio_calls (trace (demo_at 6)))"
    and v6: "eof_once (EncodeVideo None NoPacket) True (video_calls (trace (demo_at 6)))"
    by simp_all
  from eof_set_once [of demo_engines demo_start 4 "demo_at 4"] demo_main_setup demo_iterations(5) e4
  have a4: "eof_once (EncodeAudio None NoPacket) False (audio_calls (trace (demo_at 4)))"
    by simp
  from eof_set_once [of demo_engines _ _ "main_finish demo_engines (demo_at 6)" 6 "Return 0"]
    demo_main(1) main_finish_effect [of demo_engines "demo_at 6"] e6
  have m: "eof_once (EncodeAudio None NoPacket) True
        (audio_calls (trace (main_finish demo_engines (demo_at 6))))"
    by simp
  show ?thesis
    using demo_main_setup demo_iterations(5,7) e6 e4 demo_calls a6 v6 a4 demo_main(1) m
    by (simp del: iterations.simps)
qed

section \<open>The frame counter\<close>

lemma video_step_returns:
  "write_video_frame env st fl s = Inr s' \<Longrightarrow>
     frame_count s' = frame_count s + 1 \<and> video_pts s' = real_of_int (frame_count s)"
  using write_video_frame_stepped [of fl s env st] by (simp add: video_stepped_def)

lemma video_step_stops:
  "write_video_frame env st fl s = Inl (e, s') \<Longrightarrow>
     frame_count s' = frame_count s \<and> video_pts s' = video_pts s"
  using write_video_frame_stepped [of fl s env st] by (simp add: video_stepped_def)

lemma video_flush_drained:
  assumes "avcodec_encode_video2 env (trace s) None = NoPacket"
  shows "write_video_frame env st True s =
     Inr (s\<lparr>frame_pts := frame_count s,
            trace := trace s @ [EncodeVideo None NoPacket],
            video_is_eof := True,
            video_pts := real_of_int (frame_count s),
            frame_count := frame_count s + 1\<rparr>)"
  using assms by (simp add: write_video_frame_def Let_def)

lemma video_frame_buffered:
  assumes "video_input env st s = Inr s1"
    and "avcodec_encode_video2 env (trace s1) (Some (frame_count s)) = NoPacket"
  shows "\<exists>s'. write_video_frame env st False s = Inr s' \<and> frame_count s' = frame_count s + 1
           \<and> video_pts s' = real_of_int (frame_count s) \<and> \<not> isl (write_video_frame env st False s)"
proof -
  have "frame_count s1 = frame_count s"
    using assms(1) by (cases rule: video_input_cases [of env st s]) (auto simp: quiet_def)
  then show ?thesis
    using assms by (simp add: write_video_frame_def Let_def)
qed

lemma count_step:
  assumes "frame_count s = int (length (video_calls (trace s)))"
    and "video_pts s = real_of_int (max 0 (frame_count s - 1))"
    and "loop_body env s = Inr s'"
  shows "frame_count s' = int (length (video_calls (trace s')))
       \<and> video_pts s' = real_of_int (max 0 (frame_count s' - 1))"
proof (cases rule: loop_body_cases [of s env])
  case (audio st)
  have "write_audio_frame env st (flush s \<or> duration_reached env s) (update_flush env s) = Inr s'"
    using audio(4) assms(3) by simp
  with write_audio_frame_stepped
      [of env st "flush s \<or> duration_reached env s" "update_flush env s"]
  have "audio_stepped env st (flush s \<or> duration_reached env s) (update_flush env s) (Inr s')"
    by simp
  then have "frame_count s' = frame_count s" and "video_pts s' = video_pts s"
    and "video_calls (trace s') = video_calls (trace s)"
    by (simp_all add: audio_stepped_def)
  then show ?thesis using assms(1,2) by simp
next
  case (video st)
  have "write_video_frame env st (flush s \<or> duration_reached env s) (update_flush env s) = Inr s'"
    using video(5) assms(3) by simp
  with write_video_frame_stepped
      [of "flush s \<or> duration_reached env s" "update_flush env s" env st]
  have "video_stepped (flush s \<or> duration_reached env s) (update_flush env s) (Inr s')"
    by simp
  then have "frame_count s' = frame_count s + 1" and "video_pts s' = real_of_int (frame_count s)"
    and "\<exists>r. video_calls (trace s') = video_calls (trace s) @ [r]"
    by (auto simp: video_stepped_def)
  then show ?thesis using assms(1) by auto
next
  case idle
  then show ?thesis using assms by auto
qed

lemma count_at_iterations:
  assumes "main_setup env = Inr s0" and "iterations env k s0 = Some s"
  shows "frame_count s = int (length (video_calls (trace s)))
       \<and> video_pts s = real_of_int (max 0 (frame_count s - 1))"
proof (rule iterations_invariant [OF assms(2)])
  from setup_done_facts [OF main_setup_done [OF assms(1)]]
  show "frame_count s0 = int (length (video_calls (trace s0)))
       \<and> video_pts s0 = real_of_int (max 0 (frame_count s0 - 1))"
    by simp
next
  fix s s'
  assume "frame_count s = int (length (video_calls (trace s)))
       \<and> video_pts s = real_of_int (max 0 (frame_count s - 1))"
    and "loop_body env s = Inr s'"
  then show "frame_count s' = int (length (video_calls (trace s')))
       \<and> video_pts s' = real_of_int (max 0 (frame_count s' - 1))"
    using count_step [of s env s'] by simp
qed

text \<open>
  Claim C10. A call of \<^verbatim>\<open>write_video_frame\<close> that returns has added one to the frame
  counter and has set \<^verbatim>\<open>video_pts\<close> to the counter before the call, so that two calls in
  a row leave \<^verbatim>\<open>video_pts\<close> one apart; a call that stops the process leaves both as they
  were. A flush call that gets no packet and a call whose frame the encoder buffers do
  return. In a run of \<^verbatim>\<open>main\<close> the frame counter is, after every iteration, the number
  of calls of the video encoder so far.
\<close>

theorem video_frame_counter:
  "(write_video_frame env st fl s = Inr s' \<longrightarrow>
      frame_count s' = frame_count s + 1 \<and> video_pts s' = real_of_int (frame_count s)
      \<and> (\<forall>env2 st2 fl2 s''. write_video_frame env2 st2 fl2 s' = Inr s'' \<longrightarrow>
            video_pts s'' = video_pts s' + 1))
   \<and> (write_video_frame env st fl s = Inl (e, s') \<longrightarrow>
      frame_count s' = frame_count s \<and> video_pts s' = video_pts s)
   \<and> (avcodec_encode_video2 env (trace s) None = NoPacket \<longrightarrow>
      (\<exists>s1. write_video_frame env st True s = Inr s1 \<and> video_is_eof s1
          \<and> frame_count s1 = frame_count s + 1 \<and> video_pts s1 = real_of_int (frame_count s)))
   \<and> ((\<exists>s1. video_input env st s = Inr s1
          \<and> avcodec_encode_video2 env (trace s1) (Some (frame_count s)) = NoPacket) \<longrightarrow>
      (\<exists>s2. write_video_frame env st False s = Inr s2
          \<and> frame_count s2 = frame_count s + 1 \<and> video_pts s2 = real_of_int (frame_count s)))
   \<and> (main_setup env = Inr s0 \<and> iterations env k s0 = Some s \<longrightarrow>
      frame_count s = int (length (video_calls (trace s)))
      \<and> video_pts s = real_of_int (max 0 (frame_count s - 1)))"
proof -
  have 1: "frame_count s' = frame_count s + 1 \<and> video_pts s' = real_of_int (frame_count s)
      \<and> (\<forall>env2 st2 fl2 s''. write_video_frame env2 st2 fl2 s' = Inr s'' \<longrightarrow>
            video_pts s'' = video_pts s' + 1)"
    if r: "write_video_frame env st fl s = Inr s'"
  proof -
    note a = video_step_returns [OF r]
    have "video_pts s'' = video_pts s' + 1"
      if "write_video_frame env2 st2 fl2 s' = Inr s''" for env2 st2 fl2 s''
      using video_step_returns [OF that] a by simp
    then show ?thesis using a by blast
  qed
  have 3: "\<exists>s1. write_video_frame env st True s = Inr s1 \<and> video_is_eof s1
          \<and> frame_count s1 = frame_count s + 1 \<and> video_pts s1 = real_of_int (frame_count s)"
    if "avcodec_encode_video2 env (trace s) None = NoPacket"
    using video_flush_drained [OF that, of st] by simp
  have 4: "\<exists>s2. write_video_frame env st False s = Inr s2
          \<and> frame_count s2 = frame_count s + 1 \<and> video_pts s2 = real_of_int (frame_count s)"
    if "\<exists>s1. video_input env st s = Inr s1
          \<and> avcodec_encode_video2 env (trace s1) (Some (frame_count s)) = NoPacket"
    using that video_frame_buffered [of env st s] by blast
  show ?thesis
    using 1 3 4 video_step_stops [of env st fl s e s'] count_at_iterations [of env s0 k s]
    by blast
qed

theorem video_frame_counter_witness:
  "main_setup demo_engines = Inr demo_start
   \<and> iterations demo_engines 2 demo_start = Some (demo_at 2)
   \<and> iterations demo_engines 3 demo_start = Some (demo_at 3)
   \<and> iterations demo_engines 6 demo_start = Some (demo_at 6)
   \<and> frame_count (demo_at 2) = 1 \<and> video_pts (demo_at 2) = 0
   \<and> frame_count (demo_at 3) = 2 \<and> video_pts (demo_at 3) = 1
   \<and> frame_count (demo_at 6) = 4 \<and> video_pts (demo_at 6) = 3
   \<and> frame_count (demo_at 6) = int (length (video_calls (trace (demo_at 6))))
   \<and> video_calls (trace (demo_at 6)) =
       [EncodeVideo (Some 0) NoPacket,
        EncodeVideo (Some 1) (GotPacket \<lparr>pts = 0, dts = 0, duration = 1, stream_index = 0\<rparr>),
        EncodeVideo None (GotPacket \<lparr>pts = 1, dts = 1, duration = 1, stream_index = 0\<rparr>),
        EncodeVideo None NoPacket]"
proof -
  note t2 = demo_table [THEN conjunct2, THEN conjunct2, THEN conjunct1, THEN demo_facts]
  note t3 = demo_table [THEN conjunct2, THEN conjunct2, THEN conjunct2, THEN conjunct1,
      THEN demo_facts]
  note t6 = demo_table [THEN conjunct2, THEN conjunct2, THEN conjunct2, THEN conjunct2,
      THEN conjunct2, THEN conjunct2, THEN demo_facts]
  from video_frame_counter [of demo_engines _ _ "demo_at 6" _ _ demo_start 6]
    demo_main_setup demo_iterations(7)
  have "frame_count (demo_at 6) = int (length (video_calls (trace (demo_at 6))))"
    by blast
  then show ?thesis
    using demo_main_setup demo_iterations(3,4,7) t2 t3 t6 demo_calls
    by (simp del: iterations.simps)
qed

section \<open>The trailer\<close>

lemma write_audio_frame_exit:
  "\<forall>e s'. write_audio_frame env st fl s = Inl (e, s') \<longrightarrow> e = Exit 1"
  by (rule write_audio_frame_rule) simp_all

lemma write_video_frame_exit:
  "\<forall>e s'. write_video_frame env st fl s = Inl (e, s') \<longrightarrow> e = Exit 1"
  by (rule write_video_frame_rule) simp_all

lemma loop_body_marks:
  "trailer_calls (trace (state_of (loop_body env s))) = trailer_calls (trace s)
   \<and> header_calls (trace (state_of (loop_body env s))) = header_calls (trace s)
   \<and> encoder_lookups (trace (state_of (loop_body env s))) = encoder_lookups (trace s)
   \<and> fmt (state_of (loop_body env s)) = fmt s
   \<and> (\<forall>e s'. loop_body env s = Inl (e, s') \<longrightarrow> e = Exit 1)"
proof (cases rule: loop_body_cases [of s env])
  case (audio st)
  then show ?thesis
    using write_audio_frame_stepped
      [of env st "flush s \<or> duration_reached env s" "update_flush env s"]
      write_audio_frame_exit [of env st "flush s \<or> duration_reached env s" "update_flush env s"]
    by (simp add: audio_stepped_def)
next
  case (video st)
  then show ?thesis
    using write_video_frame_stepped
      [of "flush s \<or> duration_reached env s" "update_flush env s" env st]
      write_video_frame_exit [of env st "flush s \<or> duration_reached env s" "update_flush env s"]
    by (simp add: video_stepped_def)
next
  case idle
  then show ?thesis by simp
qed

































section \<open>The codecs of a run\<close>

lemma alloc_context_fmt:
  "fmt (state_of (alloc_context env ''test.avi'' init_state)) = deduced_format env"
  by (auto simp: alloc_context_def Let_def deduced_format_def init_state_def split: option.splits)

lemma add_streams_fmt:
  "video_codec f = AV_CODEC_ID_MPEG4 \<Longrightarrow> audio_codec f = AV_CODEC_ID_MP3 \<Longrightarrow>
     fmt (state_of (add_streams env f s)) = fmt s"
  using add_streams_effect [where f = f and env = env and s = s] by (auto split: sum.splits simp: quiet_def)

lemma open_streams_fmt: "fmt (state_of (open_streams env s)) = fmt s"
  using open_streams_effect [where env = env and s = s] by (auto split: sum.splits simp: quiet_def)

lemma write_header_fmt: "fmt (state_of (write_header env f fn s)) = fmt s"
  using write_header_effect [where env = env and f = f and fn = fn and s = s] by (auto split: sum.splits simp: quiet_def)

lemma main_setup_fmt: "fmt (state_of (main_setup env)) = deduced_format env"
proof (cases "alloc_context env ''test.avi'' init_state")
  case (Inl es)
  then show ?thesis using alloc_context_fmt [of env] by (simp add: main_setup_def)
next
  case (Inr s1)
  then have f1: "fmt s1 = deduced_format env" using alloc_context_fmt [of env] by simp
  show ?thesis
  proof (cases "audio_codec (the (fmt s1)) = AV_CODEC_ID_MP3
      \<and> video_codec (the (fmt s1)) = AV_CODEC_ID_MPEG4")
    case False
    then have "main_setup env = Inl (Abort, s1)" using Inr by (auto simp: main_setup_def Let_def)
    then show ?thesis using f1 by simp
  next
    case True
    let ?f = "the (fmt s1)"
    have eq: "main_setup env =
        (case add_streams env ?f s1 of
           Inl e \<Rightarrow> Inl e
         | Inr s2 \<Rightarrow>
             (case open_streams env s2 of
                Inl e \<Rightarrow> Inl e
              | Inr s3 \<Rightarrow> write_header env ?f ''test.avi'' s3))"
      using Inr True by (simp add: main_setup_def Let_def)
    have a: "fmt (state_of (add_streams env ?f s1)) = fmt s1"
      using True by (simp add: add_streams_fmt)
    show ?thesis
    proof (cases "add_streams env ?f s1")
      case (Inl es)
      then show ?thesis using eq a f1 by simp
    next
      case Inr2: (Inr s2)
      then have f2: "fmt s2 = fmt s1" using a by simp
      show ?thesis
      proof (cases "open_streams env s2")
        case (Inl es)
        then show ?thesis using eq Inr2 f2 f1 open_streams_fmt [of env s2] by simp
      next
        case Inr3: (Inr s3)
        then have f3: "fmt s3 = fmt s2" using open_streams_fmt [of env s2] by simp
        show ?thesis
          using eq Inr2 Inr3 f3 f2 f1 write_header_fmt [of env ?f "''test.avi''" s3] by simp
      qed
    qed
  qed
qed

lemma asserted_at_exit:
  assumes "main env n = Some (e, s)"
  shows "fmt s = deduced_format env
       \<and> (e = Abort) =
           (\<exists>f. deduced_format env = Some f
              \<and> (audio_codec f \<noteq> AV_CODEC_ID_MP3 \<or> video_codec f \<noteq> AV_CODEC_ID_MPEG4))
       \<and> (e = Abort \<longrightarrow>
            encoder_lookups (trace s) = [] \<and> audio_calls (trace s) = []
            \<and> video_calls (trace s) = [])
       \<and> list_all asserted_lookup (encoder_lookups (trace s))"
proof -
  let ?I = "\<lambda>s::state.
         (\<exists>f. fmt s = Some f \<and> deduced_format env = Some f
              \<and> audio_codec f = AV_CODEC_ID_MP3 \<and> video_codec f = AV_CODEC_ID_MPEG4)
       \<and> list_all asserted_lookup (encoder_lookups (trace s))"
  have init: "?I s0" if "main_setup env = Inr s0" for s0
    using setup_done_facts(13,14) [OF main_setup_done [OF that]] main_setup_fmt [of env] that
    by simp
  have step: "?I (state_of (loop_body env s1))" if "?I s1" for s1
    using loop_body_marks [of env s1] that by simp
  show ?thesis
  proof (rule main_run_cases [where I = ?I, OF assms])
    fix s0 assume "main_setup env = Inr s0"
    then show "?I s0" by (rule init)
  next
    fix s1 assume "?I s1"
    then show "?I (state_of (loop_body env s1))" by (rule step)
  next
    assume m: "main_setup env = Inl (e, s)"
    then have st: "setup_stopped e s" by (rule main_setup_stopped)
    have f: "fmt s = deduced_format env" using main_setup_fmt [of env] m by simp
    show ?thesis
    proof (cases "fmt s")
      case None
      then show ?thesis
        using f setup_stopped_facts(5,6,8,9) [OF st] by auto
    next
      case (Some g)
      then show ?thesis
        using f setup_stopped_facts(5,6,8) [OF st] setup_stopped_facts(10) [OF st Some]
        by (auto split: if_splits)
    qed
  next
    fix s1 assume i: "?I s1" and b: "loop_body env s1 = Inl (e, s)"
    from loop_body_marks [of env s1] b have "e = Exit 1" and "fmt s = fmt s1"
      and "encoder_lookups (trace s) = encoder_lookups (trace s1)"
      by auto
    then show ?thesis using i by auto
  next
    fix s1 assume i: "?I s1" and e: "e = Return 0" and s: "s = main_finish env s1"
    from main_finish_effect [of env s1] i
    show ?thesis unfolding s e by auto
  qed
qed

text \<open>
  Claim C9. The format of a run is the one that the library deduces for \<^verbatim>\<open>"test.avi"\<close>.
  The run enters the loop only when the default codecs of that format are MP3 and MPEG-4;
  with any other format an assertion of \<^verbatim>\<open>main\<close> fails, before any encoder has been
  looked up or called. Every encoder that a run looks up is the one of MPEG-4 or of MP3.
\<close>

theorem codec_assertions:
  "(main env n = Some (e, s) \<longrightarrow>
      fmt s = deduced_format env
      \<and> (e = Abort) =
          (\<exists>f. deduced_format env = Some f
             \<and> (audio_codec f \<noteq> AV_CODEC_ID_MP3 \<or> video_codec f \<noteq> AV_CODEC_ID_MPEG4))
      \<and> (e = Abort \<longrightarrow>
           encoder_lookups (trace s) = [] \<and> audio_calls (trace s) = []
           \<and> video_calls (trace s) = [])
      \<and> list_all asserted_lookup (encoder_lookups (trace s)))
   \<and> (main_setup env = Inr s0 \<longrightarrow>
      (\<exists>f. deduced_format env = Some f \<and> fmt s0 = Some f
         \<and> audio_codec f = AV_CODEC_ID_MP3 \<and> video_codec f = AV_CODEC_ID_MPEG4)
      \<and> list_all asserted_lookup (encoder_lookups (trace s0))
      \<and> audio_calls (trace s0) = [] \<and> video_calls (trace s0) = [])"
proof -
  have "(\<exists>f. deduced_format env = Some f \<and> fmt s0 = Some f
         \<and> audio_codec f = AV_CODEC_ID_MP3 \<and> video_codec f = AV_CODEC_ID_MPEG4)
      \<and> list_all asserted_lookup (encoder_lookups (trace s0))
      \<and> audio_calls (trace s0) = [] \<and> video_calls (trace s0) = []"
    if "main_setup env = Inr s0"
    using setup_done_facts(9,10,13,14) [OF main_setup_done [OF that]] main_setup_fmt [of env] that
    by auto
  then show ?thesis using asserted_at_exit [of env n e s] by blast
qed

theorem codec_assertions_witness:
  "main demo_engines 6 = Some (Return 0, main_finish demo_engines (demo_at 6))
   \<and> deduced_format demo_engines =
       Some \<lparr>audio_codec = AV_CODEC_ID_MP3, video_codec = AV_CODEC_ID_MPEG4, nofile = False\<rparr>
   \<and> fmt (main_finish demo_engines (demo_at 6)) = deduced_format demo_engines
   \<and> list_all asserted_lookup (encoder_lookups (trace (main_finish demo_engines (demo_at 6))))
   \<and> deduced_format ac3_engines =
       Some \<lparr>audio_codec = AV_CODEC_ID_OTHER 0, video_codec = AV_CODEC_ID_MPEG4,
              nofile = False\<rparr>
   \<and> outcome_view (main ac3_engines 6) =
       Some (Abort, [], [], [],
             AllocOutputContext None ''test.avi''
               (Some \<lparr>audio_codec = AV_CODEC_ID_OTHER 0, video_codec = AV_CODEC_ID_MPEG4,
                       nofile = False\<rparr>))"
proof -
  have d: "deduced_format demo_engines =
       Some \<lparr>audio_codec = AV_CODEC_ID_MP3, video_codec = AV_CODEC_ID_MPEG4, nofile = False\<rparr>"
    by (simp add: deduced_format_def demo_engines_def)
  have a: "deduced_format ac3_engines =
       Some \<lparr>audio_codec = AV_CODEC_ID_OTHER 0, video_codec = AV_CODEC_ID_MPEG4,
              nofile = False\<rparr>"
    by (simp add: deduced_format_def ac3_engines_def demo_engines_def)
  have o: "outcome_view (main ac3_engines 6) =
       Some (Abort, [], [], [],
             AllocOutputContext None ''test.avi''
               (Some \<lparr>audio_codec = AV_CODEC_ID_OTHER 0, video_codec = AV_CODEC_ID_MPEG4,
                       nofile = False\<rparr>))"
    by (simp add: outcome_view_def main_def ac3_engines_def demo_defs calls_defs Let_def)
  from codec_assertions [of demo_engines 6 "Return 0" "main_finish demo_engines (demo_at 6)"]
    demo_main(1)
  have "fmt (main_finish demo_engines (demo_at 6)) = deduced_format demo_engines
      \<and> list_all asserted_lookup (encoder_lookups (trace (main_finish demo_engines (demo_at 6))))"
    by blast
  then show ?thesis using demo_main(1) d a o by simp
qed

section \<open>The audio clock\<close>

lemma convert_samples_count:
  "convert_samples env c s = Inr (n, s1) \<Longrightarrow>
     samples_count s1 = samples_count s \<and> audio_frame_nb_samples s1 = audio_frame_nb_samples s"
  by (auto simp: convert_samples_def grow_dst_samples_def lib_def Let_def
      split: if_splits prod.splits sum.splits)

lemma audio_input_count:
  "audio_input env c s = Inr s1 \<Longrightarrow>
     samples_count s1 = samples_count s + audio_frame_nb_samples s1 \<and> quiet s s1"
  apply (rule audio_input_cases [of env c s])
   apply simp
  apply (auto simp: audio_input_def lib_def Let_def split: sum.splits prod.splits
      dest!: convert_samples_count)
  done

text \<open>
  Claim C6, as the code has it. The first iteration of two runs that differ only in the
  audio encoder: one stamps its packet with the time 0 and the duration 240016, the other
  with the time 1000 and the duration 7. The packets written differ, the sample counter is
  240016 in both runs, and \<open>audio_pts\<close> is 240016 in both: it is neither the time of the
  packet written nor the end of that packet.
\<close>

theorem audio_clock_counterexample:
  "audio_view (first_step demo_engines) =
     (240016, 240016,
      Called (AvInterleavedWriteFrame \<lparr>pts = 0, dts = 0, duration = 240016, stream_index = 1\<rparr>) 0)
   \<and> audio_view (first_step late_engines) =
     (240016, 240016,
      Called (AvInterleavedWriteFrame \<lparr>pts = 1000, dts = 1000, duration = 7, stream_index = 1\<rparr>) 0)"
  by (simp add: demo_defs late_engines_def audio_view_def first_step_def Let_def)

text \<open>
  Claim C6, amended. When \<^verbatim>\<open>write_audio_frame\<close> returns, the sample counter is the one
  before the call plus the samples of the frame submitted (nothing under the flush flag).
  Either the encoder gave no packet and \<open>audio_pts\<close> is as before, or the last call was the
  writer's, with a result that is not negative, and \<open>audio_pts\<close> is the value of line 270
  for that sample counter: the packet written has no part in it.
\<close>

theorem audio_clock_from_counter:
  "write_audio_frame env st fl s = Inr s' \<longrightarrow>
     samples_count s' = (if fl then samples_count s else samples_count s + audio_frame_nb_samples s')
     \<and> ((\<exists>frame. last (trace s') = EncodeAudio frame NoPacket) \<and> audio_pts s' = audio_pts s
        \<or> (\<exists>pkt ret. 0 \<le> ret \<and> last (trace s') = Called (AvInterleavedWriteFrame pkt) ret)
           \<and> audio_pts s' = audio_running_time env st (samples_count s'))"
proof
  assume w: "write_audio_frame env st fl s = Inr s'"
  show "samples_count s' = (if fl then samples_count s else samples_count s + audio_frame_nb_samples s')
     \<and> ((\<exists>frame. last (trace s') = EncodeAudio frame NoPacket) \<and> audio_pts s' = audio_pts s
        \<or> (\<exists>pkt ret. 0 \<le> ret \<and> last (trace s') = Called (AvInterleavedWriteFrame pkt) ret)
           \<and> audio_pts s' = audio_running_time env st (samples_count s'))"
  proof (cases fl)
    case True
    with w show ?thesis
      by (auto simp: write_audio_frame_def write_frame_def lib_def Let_def
          split: enc_result.splits if_splits)
  next
    case False
    from w False obtain s1 where a: "audio_input env st s = Inr s1"
      by (auto simp: write_audio_frame_def split: sum.splits)
    from audio_input_count [OF a]
    have c: "samples_count s1 = samples_count s + audio_frame_nb_samples s1"
      and p: "audio_pts s1 = audio_pts s"
      by (simp_all add: quiet_def)
    from w False a c p show ?thesis
      by (auto simp: write_audio_frame_def write_frame_def lib_def Let_def
          split: enc_result.splits if_splits)
  qed
qed

theorem audio_clock_from_counter_witness:
  "isl (write_audio_frame demo_engines (the (audio_st demo_start)) False demo_start) = False
   \<and> audio_view (state_of
         (write_audio_frame demo_engines (the (audio_st demo_start)) False demo_start)) =
       (240016, 240016,
        Called (AvInterleavedWriteFrame
                  \<lparr>pts = 0, dts = 0, duration = 240016, stream_index = 1\<rparr>) 0)
   \<and> audio_pts (state_of
         (write_audio_frame demo_engines (the (audio_st demo_start)) False demo_start)) =
       audio_running_time demo_engines (the (audio_st demo_start)) 240016"
proof -
  let ?w = "write_audio_frame demo_engines (the (audio_st demo_start)) False demo_start"
  have i: "isl ?w = False"
    by (simp add: demo_defs Let_def)
  have v: "audio_view (state_of ?w) =
       (240016, 240016,
        Called (AvInterleavedWriteFrame
                  \<lparr>pts = 0, dts = 0, duration = 240016, stream_index = 1\<rparr>) 0)"
    by (simp add: demo_defs audio_view_def Let_def)
  from i have "?w = Inr (state_of ?w)" by (simp add: not_isl_state_of)
  from audio_clock_from_counter
    [of demo_engines "the (audio_st demo_start)" False demo_start "state_of ?w"] this
  have "(\<exists>frame. last (trace (state_of ?w)) = EncodeAudio frame NoPacket)
      \<or> audio_pts (state_of ?w) =
          audio_running_time demo_engines (the (audio_st demo_start))
            (samples_count (state_of ?w))"
    by blast
  with v have "audio_pts (state_of ?w) =
      audio_running_time demo_engines (the (audio_st demo_start)) 240016"
    by (auto simp: audio_view_def)
  with i v show ?thesis by blast
qed

section \<open>The resample buffer\<close>

lemma grow_kept: "n \<le> max_dst_nb_samples s \<Longrightarrow> grow_dst_samples env c n s = Inr s"
  by (simp add: grow_dst_samples_def)

lemma grow_replaced:
  assumes "max_dst_nb_samples s < n" and "grow_dst_samples env c n s = Inr s'"
  shows "max_dst_nb_samples s' = n"
    and "dst_samples_size s' = av_samples_get_buffer_size env (c_channels c) n (c_sample_fmt c)"
    and "dst_samples_data s' = dst_samples_data s"
    and "\<exists>fr ret buf. 0 \<le> ret
           \<and> trace s' = trace s @ [Called (AvFree (plane0 s (dst_samples_data s))) fr,
                                    SamplesAlloc n ret buf]
           \<and> plane0 s' (dst_samples_data s') = buf"
  using assms
  by (auto simp: grow_dst_samples_def lib_def Let_def split: prod.splits if_splits)

lemma grow_capacity:
  "grow_dst_samples env c n s = Inr s' \<Longrightarrow>
     max_dst_nb_samples s' = max (max_dst_nb_samples s) n"
proof (cases "n \<le> max_dst_nb_samples s")
  case True
  assume "grow_dst_samples env c n s = Inr s'"
  then show ?thesis using True by (simp add: grow_kept)
next
  case False
  assume g: "grow_dst_samples env c n s = Inr s'"
  from False have "max_dst_nb_samples s < n" by simp
  from grow_replaced(1) [OF this g] show ?thesis using False by simp
qed




lemma convert_request:
  assumes "swr_ctx s" and "convert_samples env c s = Inr (k, s')"
  shows "max_dst_nb_samples s' = max (max_dst_nb_samples s) k"
    and "\<exists>delay. k = av_rescale_rnd_up (delay + src_nb_samples s) (c_sample_rate c) (c_sample_rate c)"
  using assms
  by (auto simp: convert_samples_def lib_def Let_def
      split: prod.splits if_splits sum.splits dest!: grow_capacity)









end
